theory Spec2Isabelle
  imports Main
begin

section \<open>Python values, exceptions and responses\<close>

text \<open>
  The three Lambda handlers work on JSON-like Python values: the event, the request body,
  the metadata record. A float is kept as mantissa and exponent; only its truthiness and
  the fact that it is not an \<open>int\<close> matter to the handlers.
\<close>

datatype pyval =
    PNone
  | PBool bool
  | PInt int
  | PFloat int int
  | PStr string
  | PList "pyval list"
  | PDict "(string \<times> pyval) list"

text \<open>
  Exceptions: \<open>KeyError\<close> has its own \<open>except\<close> clause in the download handler;
  \<open>ClientError code message\<close> is botocore's; every other subclass of \<open>Exception\<close> is
  \<open>PyError class message\<close>.
\<close>

datatype exn =
    KeyError string
  | ClientError string string
  | PyError string string

fun str_exn :: "exn \<Rightarrow> string" where
  "str_exn (KeyError k) = [CHR 0x27] @ k @ [CHR 0x27]"
| "str_exn (ClientError code msg) = msg"
| "str_exn (PyError cls msg) = msg"

record response =
  statusCode :: int
  headers :: "(string \<times> string) list"
  body :: pyval

text \<open>
  Every handler builds its body with \<open>json.dumps\<close> of a dictionary; \<open>body\<close> is that
  dictionary, before serialisation.
\<close>

record datetime =
  year :: nat
  month :: nat
  day :: nat
  hour :: nat
  minute :: nat
  second :: nat
  microsecond :: nat

datatype pydatetime = Naive datetime | Aware datetime int

section \<open>The world outside the handlers\<close>

text \<open>
  \<open>world\<close> is what an invocation can change: the bucket (key and body of every object,
  in listing order), the number of requests sent to the object store so far, the number
  of clock readings taken, and the arguments of \<open>time.sleep\<close> so far.
\<close>

record world =
  objects :: "(string \<times> string) list"
  requests :: nat
  ticks :: nat
  sleeps :: "int list"

text \<open>
  \<open>env\<close> is what the invocation cannot control and the repository does not define: which
  requests the store fails (\<open>s3_fault n\<close> is the exception raised by the \<open>n\<close>-th request, if
  any), the clock, the random identifier, and the library functions \<open>json.loads\<close>,
  \<open>json.dumps\<close>, \<open>bytes.decode\<close>, \<open>datetime.fromisoformat\<close>, \<open>str\<close> on a value that is
  not a string, and the two presigning calls. The theorems hold for every \<open>env\<close>.
\<close>

record env =
  s3_fault :: "nat \<Rightarrow> exn option"
  utcnow_at :: "nat \<Rightarrow> datetime"
  uuid4 :: string
  json_loads :: "string \<Rightarrow> exn + pyval"
  json_dumps :: "pyval \<Rightarrow> string"
  decode_utf8 :: "string \<Rightarrow> exn + string"
  fromisoformat :: "string \<Rightarrow> exn + pydatetime"
  repr_of :: "pyval \<Rightarrow> string"
  generate_presigned_post :: "string \<Rightarrow> pyval \<Rightarrow> exn + pyval"
  generate_presigned_url :: "string \<Rightarrow> string \<Rightarrow> exn + pyval"

type_synonym 'a io = "world \<Rightarrow> (exn + 'a) \<times> world"

definition returns :: "'a \<Rightarrow> 'a io" where
  "returns x w = (Inr x, w)"

definition lift :: "exn + 'a \<Rightarrow> 'a io" where
  "lift r w = (r, w)"

definition bind_io :: "'a io \<Rightarrow> ('a \<Rightarrow> 'b io) \<Rightarrow> 'b io" where
  "bind_io m f w = (case m w of (Inl e, w') \<Rightarrow> (Inl e, w') | (Inr x, w') \<Rightarrow> f x w')"

definition try_except :: "'a io \<Rightarrow> (exn \<Rightarrow> 'a io) \<Rightarrow> 'a io" where
  "try_except m h w = (case m w of (Inl e, w') \<Rightarrow> h e w' | (Inr x, w') \<Rightarrow> (Inr x, w'))"

definition utcnow :: "env \<Rightarrow> datetime io" where
  "utcnow E w = (Inr (utcnow_at E (ticks w)), w\<lparr>ticks := ticks w + 1\<rparr>)"

definition sleep :: "int \<Rightarrow> world \<Rightarrow> world" where
  "sleep n w = w\<lparr>sleeps := sleeps w @ [n]\<rparr>"

subsection \<open>Python operations on values\<close>

fun truthy :: "pyval \<Rightarrow> bool" where
  "truthy PNone = False"
| "truthy (PBool b) = b"
| "truthy (PInt i) = (i \<noteq> 0)"
| "truthy (PFloat m e) = (m \<noteq> 0)"
| "truthy (PStr s) = (s \<noteq> [])"
| "truthy (PList xs) = (xs \<noteq> [])"
| "truthy (PDict kvs) = (kvs \<noteq> [])"

fun isinstance_int :: "pyval \<Rightarrow> bool" where
  "isinstance_int (PInt i) = True"
| "isinstance_int (PBool b) = True"
| "isinstance_int v = False"

fun int_value :: "pyval \<Rightarrow> int" where
  "int_value (PInt i) = i"
| "int_value (PBool b) = (if b then 1 else 0)"
| "int_value v = 0"

text \<open>\<open>x[k]\<close> with a string key, and \<open>x.get(k)\<close>, \<open>x.get(k, d)\<close>.\<close>

fun subscript :: "pyval \<Rightarrow> string \<Rightarrow> exn + pyval" where
  "subscript (PDict kvs) k =
     (case map_of kvs k of None \<Rightarrow> Inl (KeyError k) | Some v \<Rightarrow> Inr v)"
| "subscript v k = Inl (PyError ''TypeError'' ''object is not subscriptable by a string'')"

fun get_default :: "pyval \<Rightarrow> string \<Rightarrow> pyval \<Rightarrow> exn + pyval" where
  "get_default (PDict kvs) k d = (case map_of kvs k of None \<Rightarrow> Inr d | Some v \<Rightarrow> Inr v)"
| "get_default v k d = Inl (PyError ''AttributeError'' ''object has no attribute get'')"

definition py_get :: "pyval \<Rightarrow> string \<Rightarrow> exn + pyval" where
  "py_get v k = get_default v k PNone"

text \<open>\<open>str(v)\<close>, as an f-string formats a value.\<close>

definition digit :: "nat \<Rightarrow> char" where
  "digit n = ''0123456789'' ! (n mod 10)"

function str_nat :: "nat \<Rightarrow> string" where
  "str_nat n = (if n < 10 then [digit n] else str_nat (n div 10) @ [digit n])"
  by pat_completeness auto
termination
  by (relation "measure id") auto

declare str_nat.simps [simp del]

definition str_int :: "int \<Rightarrow> string" where
  "str_int i = (if i < 0 then CHR ''-'' # str_nat (nat (- i)) else str_nat (nat i))"

definition py_str :: "env \<Rightarrow> pyval \<Rightarrow> string" where
  "py_str E v =
     (case v of
        PStr s \<Rightarrow> s
      | PNone \<Rightarrow> ''None''
      | PBool b \<Rightarrow> (if b then ''True'' else ''False'')
      | PInt i \<Rightarrow> str_int i
      | _ \<Rightarrow> repr_of E v)"

subsection \<open>Naive datetimes\<close>

definition dt_tuple :: "datetime \<Rightarrow> nat list" where
  "dt_tuple d = [year d, month d, day d, hour d, minute d, second d, microsecond d]"

fun lex_less :: "nat list \<Rightarrow> nat list \<Rightarrow> bool" where
  "lex_less (x # xs) (y # ys) = (x < y \<or> (x = y \<and> lex_less xs ys))"
| "lex_less xs ys = False"

definition dt_less :: "datetime \<Rightarrow> datetime \<Rightarrow> bool" where
  "dt_less a b = lex_less (dt_tuple a) (dt_tuple b)"

text \<open>\<open>current_time > expiration\<close>: a naive and an aware datetime do not compare.\<close>

fun dt_gt :: "datetime \<Rightarrow> pydatetime \<Rightarrow> exn + bool" where
  "dt_gt now (Naive d) = Inr (dt_less d now)"
| "dt_gt now (Aware d off) =
     Inl (PyError ''TypeError'' ''can't compare offset-naive and offset-aware datetimes'')"

text \<open>\<open>d + timedelta(hours=24)\<close>: the same time on the next day of the calendar.\<close>

definition is_leap :: "nat \<Rightarrow> bool" where
  "is_leap y = (y mod 4 = 0 \<and> (y mod 100 \<noteq> 0 \<or> y mod 400 = 0))"

definition days_in_month :: "nat \<Rightarrow> nat \<Rightarrow> nat" where
  "days_in_month y m =
     (if m = 2 then (if is_leap y then 29 else 28)
      else if m = 4 \<or> m = 6 \<or> m = 9 \<or> m = 11 then 30 else 31)"

definition add_24_hours :: "datetime \<Rightarrow> exn + datetime" where
  "add_24_hours d =
     (if day d < days_in_month (year d) (month d) then Inr (d\<lparr>day := day d + 1\<rparr>)
      else if month d < 12 then Inr (d\<lparr>month := month d + 1, day := 1\<rparr>)
      else if year d < 9999 then Inr (d\<lparr>year := year d + 1, month := 1, day := 1\<rparr>)
      else Inl (PyError ''OverflowError'' ''date value out of range''))"

text \<open>\<open>d.isoformat()\<close> of a naive datetime; the fraction is printed when it is not zero.\<close>

definition zpad :: "nat \<Rightarrow> nat \<Rightarrow> string" where
  "zpad k n = replicate (k - length (str_nat n)) CHR ''0'' @ str_nat n"

definition isoformat :: "datetime \<Rightarrow> string" where
  "isoformat d =
     zpad 4 (year d) @ ''-'' @ zpad 2 (month d) @ ''-'' @ zpad 2 (day d) @ ''T'' @
     zpad 2 (hour d) @ '':'' @ zpad 2 (minute d) @ '':'' @ zpad 2 (second d) @
     (if microsecond d = 0 then [] else ''.'' @ zpad 6 (microsecond d))"

definition py_fromisoformat :: "env \<Rightarrow> pyval \<Rightarrow> exn + pydatetime" where
  "py_fromisoformat E v =
     (case v of PStr s \<Rightarrow> fromisoformat E s
      | _ \<Rightarrow> Inl (PyError ''TypeError'' ''fromisoformat: argument must be str''))"

section \<open>The object store\<close>

text \<open>
  Every request to the store counts; the environment may fail it, and then the store is
  not changed. A request that is served answers from the bucket.
\<close>

definition s3_request :: "env \<Rightarrow> 'a io \<Rightarrow> 'a io" where
  "s3_request E serve w =
     (let w' = w\<lparr>requests := requests w + 1\<rparr>
      in case s3_fault E (requests w) of Some e \<Rightarrow> (Inl e, w') | None \<Rightarrow> serve w')"

definition NoSuchKey :: exn where
  "NoSuchKey = ClientError ''NoSuchKey''
     ''An error occurred (NoSuchKey) when calling the GetObject operation: The specified key does not exist.''"

definition HeadNotFound :: exn where
  "HeadNotFound = ClientError ''404''
     ''An error occurred (404) when calling the HeadObject operation: Not Found''"

definition get_object :: "env \<Rightarrow> string \<Rightarrow> string io" where
  "get_object E key =
     s3_request E (\<lambda>w. case map_of (objects w) key of
                          None \<Rightarrow> (Inl NoSuchKey, w)
                        | Some b \<Rightarrow> (Inr b, w))"

text \<open>\<open>head_object\<close> answers with a non-empty dictionary, or raises when the key is absent.\<close>

definition head_object :: "env \<Rightarrow> string \<Rightarrow> pyval io" where
  "head_object E key =
     s3_request E (\<lambda>w. case map_of (objects w) key of
                          None \<Rightarrow> (Inl HeadNotFound, w)
                        | Some b \<Rightarrow> (Inr (PDict [(''ContentLength'', PInt (int (length b)))]), w))"

definition put_object :: "env \<Rightarrow> string \<Rightarrow> string \<Rightarrow> unit io" where
  "put_object E key b =
     s3_request E (\<lambda>w. (Inr (), w\<lparr>objects := (key, b) # filter (\<lambda>kv. fst kv \<noteq> key) (objects w)\<rparr>))"

text \<open>
  One \<open>delete_objects\<close> request names at most 1000 keys; the service refuses a longer
  list with \<open>MalformedXML\<close> and deletes nothing.
\<close>

definition MAX_DELETE_KEYS :: nat where
  "MAX_DELETE_KEYS = 1000"

definition MalformedXML :: exn where
  "MalformedXML = ClientError ''MalformedXML''
     ''An error occurred (MalformedXML) when calling the DeleteObjects operation: The XML you provided was not well-formed or did not validate against our published schema''"

definition delete_objects :: "env \<Rightarrow> string list \<Rightarrow> unit io" where
  "delete_objects E keys =
     s3_request E (\<lambda>w. if length keys > MAX_DELETE_KEYS then (Inl MalformedXML, w)
                        else (Inr (), w\<lparr>objects := filter (\<lambda>kv. fst kv \<notin> set keys) (objects w)\<rparr>))"

section \<open>Download handler\<close>

definition DOWNLOAD_MAX_RETRIES :: int where
  "DOWNLOAD_MAX_RETRIES = 3"

definition TRANSIENT_CODES :: "string list" where
  "TRANSIENT_CODES = [''SlowDown'', ''InternalError'', ''ServiceUnavailable'']"

function s3_get_loop :: "env \<Rightarrow> string \<Rightarrow> int \<Rightarrow> int \<Rightarrow> world \<Rightarrow> (exn + string option) \<times> world" where
  "s3_get_loop E key max_retries retries w =
     (if retries < max_retries then
        (case get_object E key w of
           (Inr resp, w1) \<Rightarrow> (Inr (Some resp), w1)
         | (Inl e, w1) \<Rightarrow>
             (case e of
                ClientError error_code msg \<Rightarrow>
                  if error_code = ''NoSuchKey'' then (Inr None, w1)
                  else if error_code \<in> set TRANSIENT_CODES \<and> retries + 1 < max_retries
                  then s3_get_loop E key max_retries (retries + 1)
                         (sleep (2 ^ nat (retries + 1)) w1)
                  else (Inl e, w1)
              | _ \<Rightarrow> (Inl e, w1)))
      else (Inr None, w))"
  by pat_completeness auto
termination
  by (relation "measure (\<lambda>(E, key, max_retries, retries, w). nat (max_retries - retries))") auto

declare s3_get_loop.simps [simp del]

definition s3_get_with_retry :: "env \<Rightarrow> string \<Rightarrow> int \<Rightarrow> string option io" where
  "s3_get_with_retry E key max_retries = s3_get_loop E key max_retries 0"

definition generate_download_url :: "env \<Rightarrow> pyval \<Rightarrow> pyval \<Rightarrow> pyval io" where
  "generate_download_url E file_id filename =
     lift (generate_presigned_url E (py_str E file_id @ ''/'' @ py_str E filename)
             (''attachment; filename='' @ [CHR 0x22] @ py_str E filename @ [CHR 0x22]))"

definition is_file_expired :: "env \<Rightarrow> pyval \<Rightarrow> bool io" where
  "is_file_expired E expiration_time =
     try_except
       (bind_io (lift (py_fromisoformat E expiration_time)) (\<lambda>expiration_datetime.
        bind_io (utcnow E) (\<lambda>current_time.
        lift (dt_gt current_time expiration_datetime))))
       (\<lambda>e. returns True)"

definition json_headers :: "(string \<times> string) list" where
  "json_headers = [(''Content-Type'', ''application/json''), (''Access-Control-Allow-Origin'', ''*'')]"

definition error_response :: "int \<Rightarrow> string \<Rightarrow> response" where
  "error_response code msg =
     \<lparr>statusCode = code, headers = json_headers, body = PDict [(''error'', PStr msg)]\<rparr>"

definition download_try :: "env \<Rightarrow> pyval \<Rightarrow> response io" where
  "download_try E event =
     bind_io (lift (subscript event ''pathParameters'')) (\<lambda>path_parameters.
     bind_io (lift (subscript path_parameters ''file_id'')) (\<lambda>file_id.
     bind_io (s3_get_with_retry E (py_str E file_id @ ''/metadata.json'') DOWNLOAD_MAX_RETRIES)
       (\<lambda>metadata_response.
     case metadata_response of
       None \<Rightarrow> returns (error_response 404 ''File not found'')
     | Some raw \<Rightarrow>
         bind_io (lift (decode_utf8 E raw)) (\<lambda>text.
         bind_io (lift (json_loads E text)) (\<lambda>metadata.
         bind_io (lift (py_get metadata ''original_filename'')) (\<lambda>original_filename.
         bind_io (lift (py_get metadata ''content_type'')) (\<lambda>content_type.
         bind_io (lift (py_get metadata ''expiration_time'')) (\<lambda>expiration_time.
         bind_io (is_file_expired E expiration_time) (\<lambda>expired.
         if expired then returns (error_response 404 ''File has expired'')
         else
           bind_io (head_object E (py_str E file_id @ ''/'' @ py_str E original_filename))
             (\<lambda>file_exists_response.
           if \<not> truthy file_exists_response
           then returns (error_response 404 ''File content not found'')
           else
             bind_io (generate_download_url E file_id original_filename) (\<lambda>download_url.
             returns \<lparr>statusCode = 200, headers = json_headers,
                      body = PDict [(''download_url'', download_url),
                                    (''filename'', original_filename),
                                    (''content_type'', content_type),
                                    (''expiration_time'', expiration_time)]\<rparr>)))))))))))"

definition download_except :: "exn \<Rightarrow> response io" where
  "download_except e =
     (case e of
        KeyError k \<Rightarrow>
          returns (error_response 400 (''Missing required parameter: '' @ str_exn e))
      | _ \<Rightarrow> returns (error_response 500 ''An internal server error occurred''))"

definition download_lambda_handler :: "env \<Rightarrow> pyval \<Rightarrow> response io" where
  "download_lambda_handler E event =
     bind_io (utcnow E) (\<lambda>request_time.
     try_except (download_try E event) download_except)"

section \<open>Upload handler\<close>

definition MAX_FILE_SIZE :: int where
  "MAX_FILE_SIZE = 10 * 1024 * 1024"

definition ALLOWED_CONTENT_TYPES :: "string list" where
  "ALLOWED_CONTENT_TYPES =
     [''image/jpeg'', ''image/png'', ''image/gif'', ''image/webp'',
      ''application/pdf'', ''application/msword'',
      ''application/vnd.openxmlformats-officedocument.wordprocessingml.document'',
      ''text/plain'', ''text/csv'', ''application/zip'', ''application/x-zip-compressed'',
      ''application/vnd.ms-excel'',
      ''application/vnd.openxmlformats-officedocument.spreadsheetml.sheet'',
      ''application/vnd.ms-powerpoint'',
      ''application/vnd.openxmlformats-officedocument.presentationml.presentation'',
      ''video/mp4'', ''video/quicktime'', ''audio/mpeg'', ''audio/mp4'']"

definition UPLOAD_MAX_RETRIES :: int where
  "UPLOAD_MAX_RETRIES = 3"

text \<open>
  \<open>s3_put_with_retry\<close> is called with a key, a body and a content type; the bucket keeps
  the body. It returns \<open>True\<close>, or \<open>None\<close> when the loop is never entered.
\<close>

function s3_put_loop :: "env \<Rightarrow> string \<Rightarrow> string \<Rightarrow> int \<Rightarrow> int \<Rightarrow> world \<Rightarrow> (exn + pyval) \<times> world" where
  "s3_put_loop E key b max_retries retries w =
     (if retries < max_retries then
        (case put_object E key b w of
           (Inr u, w1) \<Rightarrow> (Inr (PBool True), w1)
         | (Inl e, w1) \<Rightarrow>
             (case e of
                ClientError error_code msg \<Rightarrow>
                  if error_code \<in> set TRANSIENT_CODES \<and> retries + 1 < max_retries
                  then s3_put_loop E key b max_retries (retries + 1)
                         (sleep (2 ^ nat (retries + 1)) w1)
                  else (Inl e, w1)
              | _ \<Rightarrow> (Inl e, w1)))
      else (Inr PNone, w))"
  by pat_completeness auto
termination
  by (relation "measure (\<lambda>(E, key, b, max_retries, retries, w). nat (max_retries - retries))") auto

declare s3_put_loop.simps [simp del]

definition s3_put_with_retry :: "env \<Rightarrow> string \<Rightarrow> string \<Rightarrow> int \<Rightarrow> pyval io" where
  "s3_put_with_retry E key b max_retries = s3_put_loop E key b max_retries 0"

definition generate_upload_url :: "env \<Rightarrow> string \<Rightarrow> pyval \<Rightarrow> pyval \<Rightarrow> pyval \<Rightarrow> pyval io" where
  "generate_upload_url E file_id filename content_type file_size =
     lift (generate_presigned_post E (file_id @ ''/'' @ py_str E filename) content_type)"

definition in_allowed_content_types :: "pyval \<Rightarrow> bool" where
  "in_allowed_content_types v = (case v of PStr s \<Rightarrow> s \<in> set ALLOWED_CONTENT_TYPES | _ \<Rightarrow> False)"

definition upload_store :: "env \<Rightarrow> pyval \<Rightarrow> pyval \<Rightarrow> pyval \<Rightarrow> response io" where
  "upload_store E filename content_type file_size =
     (let file_id = uuid4 E in
      bind_io (utcnow E) (\<lambda>now1.
      bind_io (lift (add_24_hours now1)) (\<lambda>expiration_time.
      let expiration_timestamp = isoformat expiration_time in
      bind_io (utcnow E) (\<lambda>now2.
      let metadata = PDict [(''original_filename'', filename),
                            (''content_type'', content_type),
                            (''expiration_time'', PStr expiration_timestamp),
                            (''upload_time'', PStr (isoformat now2)),
                            (''file_size'', PStr (py_str E file_size))] in
      bind_io (s3_put_with_retry E (file_id @ ''/metadata.json'') (json_dumps E metadata)
                 UPLOAD_MAX_RETRIES) (\<lambda>stored.
      bind_io (generate_upload_url E file_id filename content_type file_size) (\<lambda>upload_data.
      returns \<lparr>statusCode = 200, headers = json_headers,
               body = PDict [(''file_id'', PStr file_id),
                             (''upload_data'', upload_data),
                             (''download_path'', PStr (''/download/'' @ file_id)),
                             (''expiration_time'', PStr expiration_timestamp)]\<rparr>))))))"

definition upload_try :: "env \<Rightarrow> pyval \<Rightarrow> response io" where
  "upload_try E event =
     bind_io (lift (py_get event ''body'')) (\<lambda>event_body.
     bind_io (lift (case event_body of
                      PStr s \<Rightarrow> json_loads E s
                    | _ \<Rightarrow> get_default event ''body'' (PDict []))) (\<lambda>request.
     bind_io (lift (py_get request ''filename'')) (\<lambda>filename.
     bind_io (lift (py_get request ''content_type'')) (\<lambda>content_type.
     bind_io (lift (py_get request ''file_size'')) (\<lambda>file_size.
     if \<not> truthy filename then returns (error_response 400 ''Filename is required'')
     else if \<not> truthy content_type then returns (error_response 400 ''Content type is required'')
     else if \<not> truthy file_size \<or> \<not> isinstance_int file_size
     then returns (error_response 400 ''Valid file size is required'')
     else if int_value file_size > MAX_FILE_SIZE
     then returns (error_response 400 ''File size exceeds the maximum limit of 10.0MB'')
     else if \<not> in_allowed_content_types content_type
     then returns (error_response 400
                     (''Content type '' @ py_str E content_type @ '' is not allowed''))
     else upload_store E filename content_type file_size)))))"

definition upload_except :: "exn \<Rightarrow> response io" where
  "upload_except e = returns (error_response 500 ''An internal server error occurred'')"

definition upload_lambda_handler :: "env \<Rightarrow> pyval \<Rightarrow> response io" where
  "upload_lambda_handler E event =
     bind_io (utcnow E) (\<lambda>request_time.
     try_except (upload_try E event) upload_except)"

section \<open>Cleanup sweeper\<close>

text \<open>
  A listing is read page by page, one request to the store for each page. A page has
  \<open>CommonPrefixes\<close> and \<open>Contents\<close> only when they are not empty. The pages are those of
  the bucket when the paginator is created.
\<close>

record page =
  CommonPrefixes :: "string list option"
  Contents :: "string list option"

definition MAX_KEYS :: nat where
  "MAX_KEYS = 1000"

function chunks :: "nat \<Rightarrow> 'a list \<Rightarrow> 'a list list" where
  "chunks n xs = (if n = 0 \<or> length xs \<le> n then [xs] else take n xs # chunks n (drop n xs))"
  by pat_completeness auto
termination
  by (relation "measure (\<lambda>(n, xs). length xs)") auto

declare chunks.simps [simp del]

definition nonempty :: "'a list \<Rightarrow> 'a list option" where
  "nonempty xs = (if xs = [] then None else Some xs)"

definition make_page :: "(string + string) list \<Rightarrow> page" where
  "make_page es =
     \<lparr>CommonPrefixes = nonempty (concat (map (\<lambda>e. case e of Inl p \<Rightarrow> [p] | Inr k \<Rightarrow> []) es)),
      Contents = nonempty (concat (map (\<lambda>e. case e of Inl p \<Rightarrow> [] | Inr k \<Rightarrow> [k]) es))\<rparr>"

definition has_delimiter :: "string \<Rightarrow> bool" where
  "has_delimiter k = (CHR ''/'' \<in> set k)"

definition common_prefix :: "string \<Rightarrow> string" where
  "common_prefix k = takeWhile (\<lambda>c. c \<noteq> CHR ''/'') k @ ''/''"

definition starts_with :: "string \<Rightarrow> string \<Rightarrow> bool" where
  "starts_with p k = (take (length p) k = p)"

definition paginate_delimiter :: "page list io" where
  "paginate_delimiter w =
     (Inr (map make_page (chunks MAX_KEYS
        (remdups (map (\<lambda>kv. if has_delimiter (fst kv) then Inl (common_prefix (fst kv))
                             else Inr (fst kv)) (objects w))))), w)"

definition paginate_prefix :: "string \<Rightarrow> page list io" where
  "paginate_prefix p w =
     (Inr (map make_page (chunks MAX_KEYS
        (map Inr (filter (starts_with p) (map fst (objects w)))))), w)"

fun for_pages :: "env \<Rightarrow> page list \<Rightarrow> (page \<Rightarrow> 's \<Rightarrow> 's io) \<Rightarrow> 's \<Rightarrow> 's io" where
  "for_pages E [] f s w = (Inr s, w)"
| "for_pages E (pg # pgs) f s w =
     (case s3_request E (returns pg) w of
        (Inl e, w1) \<Rightarrow> (Inl e, w1)
      | (Inr fetched, w1) \<Rightarrow>
          (case f fetched s w1 of
             (Inl e, w2) \<Rightarrow> (Inl e, w2)
           | (Inr s', w2) \<Rightarrow> for_pages E pgs f s' w2))"

fun for_each :: "'a list \<Rightarrow> ('a \<Rightarrow> 's \<Rightarrow> 's io) \<Rightarrow> 's \<Rightarrow> 's io" where
  "for_each [] f s w = (Inr s, w)"
| "for_each (x # xs) f s w =
     (case f x s w of
        (Inl e, w1) \<Rightarrow> (Inl e, w1)
      | (Inr s', w1) \<Rightarrow> for_each xs f s' w1)"

definition rstrip_slash :: "string \<Rightarrow> string" where
  "rstrip_slash s = rev (dropWhile (\<lambda>c. c = CHR ''/'') (rev s))"

definition collect_keys :: "page \<Rightarrow> string list \<Rightarrow> string list io" where
  "collect_keys file_page objects_to_delete =
     (case Contents file_page of
        None \<Rightarrow> returns objects_to_delete
      | Some ks \<Rightarrow> returns (objects_to_delete @ ks))"

text \<open>The loop body for one prefix; the state is \<open>(deleted_count, checked_count)\<close>.\<close>

definition process_prefix :: "env \<Rightarrow> string \<Rightarrow> nat \<times> nat \<Rightarrow> (nat \<times> nat) io" where
  "process_prefix E prefix counts =
     (let file_id = rstrip_slash prefix;
          deleted_count = fst counts;
          checked_count = snd counts + 1
      in try_except
           (bind_io (get_object E (file_id @ ''/metadata.json'')) (\<lambda>raw.
            bind_io (lift (decode_utf8 E raw)) (\<lambda>metadata_content.
            bind_io (lift (json_loads E metadata_content)) (\<lambda>metadata.
            bind_io (lift (subscript metadata ''expiration_time'')) (\<lambda>field.
            bind_io (lift (py_fromisoformat E field)) (\<lambda>expiration_time.
            bind_io (utcnow E) (\<lambda>current_time.
            bind_io (lift (dt_gt current_time expiration_time)) (\<lambda>expired.
            if expired then
              bind_io (paginate_prefix (file_id @ ''/'')) (\<lambda>file_pages.
              bind_io (for_pages E file_pages collect_keys []) (\<lambda>objects_to_delete.
              if objects_to_delete \<noteq> [] then
                bind_io (delete_objects E objects_to_delete) (\<lambda>u.
                returns (deleted_count + 1, checked_count))
              else returns (deleted_count, checked_count)))
            else returns (deleted_count, checked_count)))))))))
           (\<lambda>e. returns (deleted_count, checked_count)))"

definition process_page :: "env \<Rightarrow> page \<Rightarrow> nat \<times> nat \<Rightarrow> (nat \<times> nat) io" where
  "process_page E pg counts =
     (case CommonPrefixes pg of
        None \<Rightarrow> returns counts
      | Some prefixes \<Rightarrow> for_each prefixes (process_prefix E) counts)"

definition cleanup_message :: "nat \<times> nat \<Rightarrow> string" where
  "cleanup_message counts =
     ''Cleanup completed. Checked '' @ str_nat (snd counts) @ '' files, deleted '' @
     str_nat (fst counts) @ '' expired files.''"

definition cleanup_try :: "env \<Rightarrow> response io" where
  "cleanup_try E =
     bind_io paginate_delimiter (\<lambda>pages.
     bind_io (for_pages E pages (process_page E) (0, 0)) (\<lambda>counts.
     returns \<lparr>statusCode = 200, headers = [],
              body = PDict [(''message'', PStr (cleanup_message counts))]\<rparr>))"

definition cleanup_except :: "exn \<Rightarrow> response io" where
  "cleanup_except e =
     returns \<lparr>statusCode = 500, headers = [],
              body = PDict [(''error'', PStr (''An error occurred: '' @ str_exn e))]\<rparr>"

definition cleanup_lambda_handler :: "env \<Rightarrow> pyval \<Rightarrow> response io" where
  "cleanup_lambda_handler E event = try_except (cleanup_try E) cleanup_except"

section \<open>Vocabulary of the properties\<close>

text \<open>
  The failure classes of the retry policy, and the world after \<open>n\<close> requests of one
  retried operation: \<open>n\<close> requests sent, and a sleep of \<open>2 ^ i\<close> seconds after the
  \<open>i\<close>-th failed attempt, for every attempt but the last.
\<close>

fun is_transient :: "exn \<Rightarrow> bool" where
  "is_transient (ClientError code msg) =
     (code = ''SlowDown'' \<or> code = ''InternalError'' \<or> code = ''ServiceUnavailable'')"
| "is_transient e = False"

fun is_not_found :: "exn \<Rightarrow> bool" where
  "is_not_found (ClientError code msg) = (code = ''NoSuchKey'')"
| "is_not_found e = False"

definition attempts :: "nat \<Rightarrow> world \<Rightarrow> world" where
  "attempts n w = w\<lparr>requests := requests w + n, sleeps := sleeps w @ map (\<lambda>i. 2 ^ i) [1..<n]\<rparr>"

text \<open>The world after \<open>k\<close> failed attempts, each followed by its sleep.\<close>

definition backed_off :: "nat \<Rightarrow> world \<Rightarrow> world" where
  "backed_off k w =
     w\<lparr>requests := requests w + k, sleeps := sleeps w @ map (\<lambda>i. 2 ^ i) [1..<Suc k]\<rparr>"

definition stored :: "string \<Rightarrow> string \<Rightarrow> world \<Rightarrow> world" where
  "stored key b w = w\<lparr>objects := (key, b) # filter (\<lambda>kv. fst kv \<noteq> key) (objects w)\<rparr>"

text \<open>
  The identifier a key belongs to, the keys of an item, and the \<open>expiration_time\<close> of an
  item as the sweeper reads it: \<open>None\<close> when the metadata record is absent, cannot be
  decoded, is not JSON, has no \<open>expiration_time\<close>, or \<open>fromisoformat\<close> rejects the field;
  otherwise the parsed value, naive or with a UTC offset.
\<close>

definition item_of :: "string \<Rightarrow> string" where
  "item_of k = takeWhile (\<lambda>c. c \<noteq> CHR ''/'') k"

definition item_keys :: "(string \<times> string) list \<Rightarrow> string \<Rightarrow> string list" where
  "item_keys objs file_id = filter (starts_with (file_id @ ''/'')) (map fst objs)"

definition expiration_of :: "env \<Rightarrow> (string \<times> string) list \<Rightarrow> string \<Rightarrow> pydatetime option" where
  "expiration_of E objs file_id =
     (case map_of objs (file_id @ ''/metadata.json'') of
        None \<Rightarrow> None
      | Some raw \<Rightarrow>
          (case decode_utf8 E raw of
             Inl e \<Rightarrow> None
           | Inr content \<Rightarrow>
               (case json_loads E content of
                  Inl e \<Rightarrow> None
                | Inr metadata \<Rightarrow>
                    (case subscript metadata ''expiration_time'' of
                       Inl e \<Rightarrow> None
                     | Inr fld \<Rightarrow>
                         (case py_fromisoformat E fld of
                            Inl e \<Rightarrow> None
                          | Inr x \<Rightarrow> Some x)))))"

text \<open>
  \<open>swept E t objs file_id\<close>: the \<open>expiration_time\<close> of the item is a naive datetime before
  \<open>t\<close> and the item has no more keys than one delete request takes. A prefix of the
  delimiter listing is an identifier followed by one slash; \<open>lefts\<close> are the prefixes
  among the entries of a listing, and \<open>removed D objs\<close> is the bucket without the objects
  under the prefixes \<open>D\<close>.
\<close>

definition swept :: "env \<Rightarrow> datetime \<Rightarrow> (string \<times> string) list \<Rightarrow> string \<Rightarrow> bool" where
  "swept E t objs file_id =
     ((\<exists>d. expiration_of E objs file_id = Some (Naive d) \<and> dt_less d t)
      \<and> length (item_keys objs file_id) \<le> MAX_DELETE_KEYS)"

definition good_prefix :: "string \<Rightarrow> bool" where
  "good_prefix p = (\<exists>fid. p = fid @ ''/'' \<and> CHR ''/'' \<notin> set fid)"

definition lefts :: "('a + 'b) list \<Rightarrow> 'a list" where
  "lefts es = concat (map (\<lambda>e. case e of Inl p \<Rightarrow> [p] | Inr k \<Rightarrow> []) es)"

definition removed :: "string set \<Rightarrow> (string \<times> string) list \<Rightarrow> (string \<times> string) list" where
  "removed D objs = filter (\<lambda>kv. \<not> (\<exists>p\<in>D. starts_with p (fst kv))) objs"

text \<open>
  \<open>sweeps E ps w w'\<close>: from \<open>w\<close> to \<open>w'\<close> the clock only moves forward, the bucket loses
  exactly the objects under a set \<open>Del\<close> of the prefixes \<open>ps\<close>, and each prefix is in
  \<open>Del\<close> according to one clock reading taken between \<open>w\<close> and \<open>w'\<close>.
\<close>

definition sweeps :: "env \<Rightarrow> string list \<Rightarrow> world \<Rightarrow> world \<Rightarrow> bool" where
  "sweeps E ps w w' =
     (ticks w \<le> ticks w' \<and>
      (\<exists>Del. Del \<subseteq> set ps \<and> objects w' = removed Del (objects w) \<and>
         (\<forall>p\<in>set ps. \<exists>n. ticks w \<le> n \<and> n \<le> ticks w' \<and>
            (p \<in> Del \<longleftrightarrow> swept E (utcnow_at E n) (objects w) (rstrip_slash p)))))"

definition internal_error_body :: pyval where
  "internal_error_body = PDict [(''error'', PStr ''An internal server error occurred'')]"

section \<open>Example inputs\<close>

text \<open>
  A bucket with two expired items \<open>abc\<close> and \<open>old\<close>, a live item \<open>live\<close> whose content was
  never uploaded, an item \<open>bad\<close> whose \<open>expiration_time\<close> is not a timestamp, and an item
  \<open>junk\<close> whose metadata record is not JSON. The
  library functions of the example environment are tables that agree with Python on
  the strings of the examples.
\<close>

definition example_now :: datetime where
  "example_now = \<lparr>year = 2026, month = 11, day = 3, hour = 12, minute = 0, second = 0,
                   microsecond = 0\<rparr>"

definition expired_metadata_text :: string where
  "expired_metadata_text = ''{\"original_filename\": \"a.txt\", \"content_type\": \"text/plain\", \"expiration_time\": \"2020-01-01T00:00:00\", \"upload_time\": \"2019-12-31T00:00:00\", \"file_size\": \"100\"}''"

definition expired_metadata :: pyval where
  "expired_metadata =
     PDict [(''original_filename'', PStr ''a.txt''), (''content_type'', PStr ''text/plain''),
            (''expiration_time'', PStr ''2020-01-01T00:00:00''),
            (''upload_time'', PStr ''2019-12-31T00:00:00''), (''file_size'', PStr ''100'')]"

definition live_metadata_text :: string where
  "live_metadata_text = ''{\"original_filename\": \"b.txt\", \"content_type\": \"text/plain\", \"expiration_time\": \"2030-01-01T00:00:00\", \"upload_time\": \"2029-12-31T00:00:00\", \"file_size\": \"100\"}''"

definition live_metadata :: pyval where
  "live_metadata =
     PDict [(''original_filename'', PStr ''b.txt''), (''content_type'', PStr ''text/plain''),
            (''expiration_time'', PStr ''2030-01-01T00:00:00''),
            (''upload_time'', PStr ''2029-12-31T00:00:00''), (''file_size'', PStr ''100'')]"

definition broken_metadata_text :: string where
  "broken_metadata_text = ''{\"original_filename\": \"c.txt\", \"content_type\": \"text/plain\", \"expiration_time\": \"tomorrow\"}''"

definition broken_metadata :: pyval where
  "broken_metadata =
     PDict [(''original_filename'', PStr ''c.txt''), (''content_type'', PStr ''text/plain''),
            (''expiration_time'', PStr ''tomorrow'')]"

definition upload_request_text :: "string \<Rightarrow> string" where
  "upload_request_text n = ''{\"filename\": \"a.txt\", \"content_type\": \"text/plain\", \"file_size\": '' @ n @ ''}''"

definition upload_request :: "int \<Rightarrow> pyval" where
  "upload_request n =
     PDict [(''filename'', PStr ''a.txt''), (''content_type'', PStr ''text/plain''),
            (''file_size'', PInt n)]"

definition example_json_loads :: "string \<Rightarrow> exn + pyval" where
  "example_json_loads s =
     (if s = expired_metadata_text then Inr expired_metadata
      else if s = live_metadata_text then Inr live_metadata
      else if s = broken_metadata_text then Inr broken_metadata
      else if s = upload_request_text ''100'' then Inr (upload_request 100)
      else if s = upload_request_text ''-1'' then Inr (upload_request (- 1))
      else if s = upload_request_text ''-5'' then Inr (upload_request (- 5))
      else Inl (PyError ''JSONDecodeError'' ''Expecting value''))"

definition example_fromisoformat :: "string \<Rightarrow> exn + pydatetime" where
  "example_fromisoformat s =
     (if s = ''2020-01-01T00:00:00''
      then Inr (Naive \<lparr>year = 2020, month = 1, day = 1, hour = 0, minute = 0, second = 0,
                       microsecond = 0\<rparr>)
      else if s = ''2030-01-01T00:00:00''
      then Inr (Naive \<lparr>year = 2030, month = 1, day = 1, hour = 0, minute = 0, second = 0,
                       microsecond = 0\<rparr>)
      else Inl (PyError ''ValueError'' ''Invalid isoformat string''))"

fun dumps_item :: "string \<times> pyval \<Rightarrow> string" where
  "dumps_item (k, PStr v) = [CHR 0x22] @ k @ [CHR 0x22] @ '': '' @ [CHR 0x22] @ v @ [CHR 0x22]"
| "dumps_item (k, v) = [CHR 0x22] @ k @ [CHR 0x22] @ '': null''"

fun join_with :: "string \<Rightarrow> string list \<Rightarrow> string" where
  "join_with sep [] = []"
| "join_with sep [x] = x"
| "join_with sep (x # y # ys) = x @ sep @ join_with sep (y # ys)"

definition example_json_dumps :: "pyval \<Rightarrow> string" where
  "example_json_dumps v =
     (case v of PDict kvs \<Rightarrow> ''{'' @ join_with '', '' (map dumps_item kvs) @ ''}''
      | _ \<Rightarrow> ''null'')"

definition example_env :: env where
  "example_env =
     \<lparr>s3_fault = (\<lambda>n. None),
      utcnow_at = (\<lambda>n. example_now),
      uuid4 = ''0f8fad5b-d9cb-469f-a165-70867728950e'',
      json_loads = example_json_loads,
      json_dumps = example_json_dumps,
      decode_utf8 = Inr,
      fromisoformat = example_fromisoformat,
      repr_of = (\<lambda>v. ''<value>''),
      generate_presigned_post =
        (\<lambda>k c. Inr (PDict [(''url'', PStr ''https://s3.example/''),
                            (''fields'', PDict [(''key'', PStr k), (''Content-Type'', c)])])),
      generate_presigned_url = (\<lambda>k d. Inr (PStr (''https://s3.example/'' @ k)))\<rparr>"

definition example_world :: world where
  "example_world =
     \<lparr>objects = [(''abc/a.txt'', ''hello''), (''abc/metadata.json'', expired_metadata_text),
                 (''bad/c.txt'', ''data''), (''bad/metadata.json'', broken_metadata_text),
                 (''junk/metadata.json'', ''{not json''),
                 (''live/metadata.json'', live_metadata_text),
                 (''old/a.txt'', ''bye''), (''old/metadata.json'', expired_metadata_text)],
      requests = 0, ticks = 0, sleeps = []\<rparr>"

definition empty_world :: world where
  "empty_world = \<lparr>objects = [], requests = 0, ticks = 0, sleeps = []\<rparr>"

definition download_event :: "string \<Rightarrow> pyval" where
  "download_event file_id = PDict [(''pathParameters'', PDict [(''file_id'', PStr file_id)])]"

definition upload_event :: "string \<Rightarrow> pyval" where
  "upload_event n = PDict [(''body'', PStr (upload_request_text n))]"

text \<open>The clock of \<open>ticking_env\<close> advances by a microsecond at every reading.\<close>

definition ticking_env :: env where
  "ticking_env = example_env\<lparr>utcnow_at := (\<lambda>n. example_now\<lparr>microsecond := n\<rparr>)\<rparr>"

definition AccessDenied :: exn where
  "AccessDenied = ClientError ''AccessDenied''
     ''An error occurred (AccessDenied) when calling the ListObjectsV2 operation: Access Denied''"

definition denied_env :: env where
  "denied_env = example_env\<lparr>s3_fault := (\<lambda>n. Some AccessDenied)\<rparr>"

definition SlowDown :: exn where
  "SlowDown = ClientError ''SlowDown''
     ''An error occurred (SlowDown) when calling the operation: Please reduce your request rate.''"

text \<open>The store of \<open>slow_env\<close> fails the first request of an invocation and serves the rest.\<close>

definition slow_env :: env where
  "slow_env = example_env\<lparr>s3_fault := (\<lambda>n. if n = 0 then Some SlowDown else None)\<rparr>"

text \<open>The store of \<open>overloaded_env\<close> fails every request with \<open>SlowDown\<close>.\<close>

definition overloaded_env :: env where
  "overloaded_env = example_env\<lparr>s3_fault := (\<lambda>n. Some SlowDown)\<rparr>"

text \<open>The response of the example environment to an accepted upload of \<open>a.txt\<close>.\<close>

definition example_file_id :: string where
  "example_file_id = ''0f8fad5b-d9cb-469f-a165-70867728950e''"

definition example_upload_response :: "string \<Rightarrow> response" where
  "example_upload_response expiration =
     \<lparr>statusCode = 200, headers = json_headers,
      body = PDict [(''file_id'', PStr example_file_id),
                    (''upload_data'',
                     PDict [(''url'', PStr ''https://s3.example/''),
                            (''fields'', PDict [(''key'', PStr (example_file_id @ ''/a.txt'')),
                                                (''Content-Type'', PStr ''text/plain'')])]),
                    (''download_path'', PStr (''/download/'' @ example_file_id)),
                    (''expiration_time'', PStr expiration)]\<rparr>"







section \<open>Auxiliary facts\<close>

lemmas io_defs = bind_io_def lift_def returns_def try_except_def utcnow_def

lemma py_get_dict: "py_get m k = Inr x \<Longrightarrow> \<exists>kvs. m = PDict kvs"
  by (cases m) (simp_all add: py_get_def)

lemma py_get_PDict:
  "py_get (PDict kvs) k = Inr (case map_of kvs k of None \<Rightarrow> PNone | Some v \<Rightarrow> v)"
  by (simp add: py_get_def split: option.splits)

lemma head_object_truthy: "head_object E k w = (Inr r, w') \<Longrightarrow> truthy r"
  by (auto simp: head_object_def s3_request_def Let_def split: option.splits)

section \<open>Download handler: expiry and missing content\<close>

text \<open>
  Claim C1, as the code has it: when the metadata record of the identifier is read, its
  \<open>expiration_time\<close> parses and lies before the current time, the download handler
  answers 404 with the error "File has expired"; that response is not the "File not
  found" response of an identifier without a metadata record.
\<close>

theorem download_expired_response:
  assumes "subscript event ''pathParameters'' = Inr pp"
      and "subscript pp ''file_id'' = Inr file_id"
      and "s3_get_with_retry E (py_str E file_id @ ''/metadata.json'') DOWNLOAD_MAX_RETRIES
             (w\<lparr>ticks := ticks w + 1\<rparr>) = (Inr (Some raw), w1)"
      and "decode_utf8 E raw = Inr txt"
      and "json_loads E txt = Inr metadata"
      and "py_get metadata ''expiration_time'' = Inr (PStr s)"
      and "fromisoformat E s = Inr (Naive d)"
      and "dt_less d (utcnow_at E (ticks w1))"
  shows "download_lambda_handler E event w =
           (Inr (error_response 404 ''File has expired''), w1\<lparr>ticks := ticks w1 + 1\<rparr>)
         \<and> error_response 404 ''File has expired'' \<noteq> error_response 404 ''File not found''"
proof -
  obtain kvs where m: "metadata = PDict kvs"
    using assms(6) py_get_dict by blast
  have e: "is_file_expired E (PStr s) w1 = (Inr True, w1\<lparr>ticks := ticks w1 + 1\<rparr>)"
    using assms(7,8) by (simp add: is_file_expired_def io_defs py_fromisoformat_def)
  have "download_try E event (w\<lparr>ticks := ticks w + 1\<rparr>) =
          (Inr (error_response 404 ''File has expired''), w1\<lparr>ticks := ticks w1 + 1\<rparr>)"
    using assms(1-6) e unfolding m download_try_def
    by (simp add: io_defs py_get_PDict)
  then show ?thesis
    by (simp add: download_lambda_handler_def io_defs error_response_def)
qed

lemma example_get_expired:
  "s3_get_with_retry example_env (py_str example_env (PStr ''abc'') @ ''/metadata.json'')
     DOWNLOAD_MAX_RETRIES (example_world\<lparr>ticks := ticks example_world + 1\<rparr>) =
   (Inr (Some expired_metadata_text), example_world\<lparr>requests := 1, ticks := 1\<rparr>)"
  by code_simp

theorem download_expired_response_witness:
  "download_lambda_handler example_env (download_event ''abc'') example_world =
     (Inr (error_response 404 ''File has expired''), example_world\<lparr>requests := 1, ticks := 2\<rparr>)"
proof -
  have h1: "subscript (download_event ''abc'') ''pathParameters'' =
              Inr (PDict [(''file_id'', PStr ''abc'')])"
    by (simp add: download_event_def)
  have h2: "subscript (PDict [(''file_id'', PStr ''abc'')]) ''file_id'' = Inr (PStr ''abc'')"
    by simp
  have h4: "decode_utf8 example_env expired_metadata_text = Inr expired_metadata_text"
    by (simp add: example_env_def)
  have h5: "json_loads example_env expired_metadata_text = Inr expired_metadata"
    by (simp add: example_env_def example_json_loads_def)
  have h6: "py_get expired_metadata ''expiration_time'' = Inr (PStr ''2020-01-01T00:00:00'')"
    by (simp add: expired_metadata_def py_get_def)
  have h7: "fromisoformat example_env ''2020-01-01T00:00:00'' =
              Inr (Naive \<lparr>year = 2020, month = 1, day = 1, hour = 0, minute = 0, second = 0,
                           microsecond = 0\<rparr>)"
    by (simp add: example_env_def example_fromisoformat_def)
  have h8: "dt_less \<lparr>year = 2020, month = 1, day = 1, hour = 0, minute = 0, second = 0,
                      microsecond = 0\<rparr>
              (utcnow_at example_env (ticks (example_world\<lparr>requests := 1, ticks := 1\<rparr>)))"
    by (simp add: example_env_def example_now_def dt_less_def dt_tuple_def)
  show ?thesis
    using download_expired_response [OF h1 h2 example_get_expired h4 h5 h6 h7 h8]
    by simp
qed

text \<open>
  The claim as the specification words it fails: for the expired item \<open>abc\<close> and for an
  identifier that has no metadata record the handler gives two different responses.
\<close>

theorem download_expired_not_uniform_counterexample:
  "fst (download_lambda_handler example_env (download_event ''abc'') example_world) =
     Inr (error_response 404 ''File has expired'')
   \<and> fst (download_lambda_handler example_env (download_event ''nope'') example_world) =
     Inr (error_response 404 ''File not found'')
   \<and> fst (download_lambda_handler example_env (download_event ''abc'') example_world) \<noteq>
     fst (download_lambda_handler example_env (download_event ''nope'') example_world)"
  by code_simp

lemma download_missing_response:
  assumes "subscript event ''pathParameters'' = Inr pp"
      and "subscript pp ''file_id'' = Inr file_id"
      and "s3_get_with_retry E (py_str E file_id @ ''/metadata.json'') DOWNLOAD_MAX_RETRIES
             (w\<lparr>ticks := ticks w + 1\<rparr>) = (Inr None, w1)"
  shows "download_lambda_handler E event w = (Inr (error_response 404 ''File not found''), w1)"
  using assms by (simp add: download_lambda_handler_def download_try_def io_defs)

text \<open>
  Claim C7: when the metadata record is read and its \<open>expiration_time\<close> field does not
  parse as a timestamp (it is missing, not a string, or \<open>fromisoformat\<close> rejects it), the
  download handler treats the item as expired and answers 404; it neither serves the item
  nor answers 500.
\<close>

theorem download_unparseable_expiration:
  assumes "subscript event ''pathParameters'' = Inr pp"
      and "subscript pp ''file_id'' = Inr file_id"
      and "s3_get_with_retry E (py_str E file_id @ ''/metadata.json'') DOWNLOAD_MAX_RETRIES
             (w\<lparr>ticks := ticks w + 1\<rparr>) = (Inr (Some raw), w1)"
      and "decode_utf8 E raw = Inr txt"
      and "json_loads E txt = Inr metadata"
      and "py_get metadata ''expiration_time'' = Inr field"
      and "py_fromisoformat E field = Inl err"
  shows "download_lambda_handler E event w =
           (Inr (error_response 404 ''File has expired''), w1)
         \<and> statusCode (error_response 404 ''File has expired'') = 404"
proof -
  obtain kvs where m: "metadata = PDict kvs"
    using assms(6) py_get_dict by blast
  have e: "is_file_expired E field w1 = (Inr True, w1)"
    using assms(7) by (simp add: is_file_expired_def io_defs)
  have "download_try E event (w\<lparr>ticks := ticks w + 1\<rparr>) =
          (Inr (error_response 404 ''File has expired''), w1)"
    using assms(1-6) e unfolding m download_try_def
    by (simp add: io_defs py_get_PDict)
  then show ?thesis
    by (simp add: download_lambda_handler_def io_defs error_response_def)
qed

lemma example_get_broken:
  "s3_get_with_retry example_env (py_str example_env (PStr ''bad'') @ ''/metadata.json'')
     DOWNLOAD_MAX_RETRIES (example_world\<lparr>ticks := ticks example_world + 1\<rparr>) =
   (Inr (Some broken_metadata_text), example_world\<lparr>requests := 1, ticks := 1\<rparr>)"
  by code_simp

theorem download_unparseable_expiration_witness:
  "download_lambda_handler example_env (download_event ''bad'') example_world =
     (Inr (error_response 404 ''File has expired''), example_world\<lparr>requests := 1, ticks := 1\<rparr>)"
proof -
  have h1: "subscript (download_event ''bad'') ''pathParameters'' =
              Inr (PDict [(''file_id'', PStr ''bad'')])"
    by (simp add: download_event_def)
  have h2: "subscript (PDict [(''file_id'', PStr ''bad'')]) ''file_id'' = Inr (PStr ''bad'')"
    by simp
  have h4: "decode_utf8 example_env broken_metadata_text = Inr broken_metadata_text"
    by (simp add: example_env_def)
  have h5: "json_loads example_env broken_metadata_text = Inr broken_metadata"
    by (simp add: example_env_def example_json_loads_def broken_metadata_text_def
                  expired_metadata_text_def live_metadata_text_def)
  have h6: "py_get broken_metadata ''expiration_time'' = Inr (PStr ''tomorrow'')"
    by (simp add: broken_metadata_def py_get_def)
  have h7: "py_fromisoformat example_env (PStr ''tomorrow'') =
              Inl (PyError ''ValueError'' ''Invalid isoformat string'')"
    by (simp add: py_fromisoformat_def example_env_def example_fromisoformat_def)
  show ?thesis
    using download_unparseable_expiration [OF h1 h2 example_get_broken h4 h5 h6 h7]
    by simp
qed

text \<open>
  Claim C2 at the item \<open>live\<close>: its metadata record is there and not expired, no object
  is stored at \<open>live/b.txt\<close>. \<open>head_object\<close> raises, and the handler answers 500 with
  the internal error, not 404 "File content not found".
\<close>

theorem download_missing_content_is_500:
  "map_of (objects example_world) ''live/b.txt'' = None
   \<and> download_lambda_handler example_env (download_event ''live'') example_world =
       (Inr (error_response 500 ''An internal server error occurred''),
        example_world\<lparr>requests := 2, ticks := 2\<rparr>)"
  by code_simp

text \<open>No request at all is answered with "File content not found".\<close>

lemma download_try_responses:
  assumes "download_try E event w = (Inr r, w')"
  shows "statusCode r = 200
         \<or> r = error_response 404 ''File not found''
         \<or> r = error_response 404 ''File has expired''"
  using assms head_object_truthy [of E]
  unfolding download_try_def
  by (auto simp: io_defs split: sum.splits prod.splits option.splits if_splits)

lemma content_not_found_unreachable:
  "fst (download_lambda_handler E event w) \<noteq> Inr (error_response 404 ''File content not found'')"
proof
  assume a: "fst (download_lambda_handler E event w) =
               Inr (error_response 404 ''File content not found'')"
  show False
  proof (cases "download_try E event (w\<lparr>ticks := ticks w + 1\<rparr>)")
    case (Pair res w')
    show False
    proof (cases res)
      case (Inl e)
      with Pair a show False
        by (cases e)
           (simp_all add: download_lambda_handler_def download_except_def io_defs
                          error_response_def)
    next
      case (Inr r)
      with Pair a have "r = error_response 404 ''File content not found''"
        by (simp add: download_lambda_handler_def io_defs)
      with download_try_responses [of E event _ r w'] Pair Inr show False
        by (auto simp: error_response_def)
    qed
  qed
qed

text \<open>
  Whenever the metadata record is read and not expired, the store serves the
  \<open>head_object\<close> request and holds no object at the content key, the answer is 500.
\<close>

lemma download_missing_content_raises:
  assumes "subscript event ''pathParameters'' = Inr pp"
      and "subscript pp ''file_id'' = Inr file_id"
      and "s3_get_with_retry E (py_str E file_id @ ''/metadata.json'') DOWNLOAD_MAX_RETRIES
             (w\<lparr>ticks := ticks w + 1\<rparr>) = (Inr (Some raw), w1)"
      and "decode_utf8 E raw = Inr content"
      and "json_loads E content = Inr metadata"
      and "py_get metadata ''original_filename'' = Inr original_filename"
      and "py_get metadata ''expiration_time'' = Inr expiration_time"
      and "is_file_expired E expiration_time w1 = (Inr False, w2)"
      and "s3_fault E (requests w2) = None"
      and "map_of (objects w2) (py_str E file_id @ ''/'' @ py_str E original_filename) = None"
  shows "download_lambda_handler E event w =
           (Inr (error_response 500 ''An internal server error occurred''),
            w2\<lparr>requests := requests w2 + 1\<rparr>)"
proof -
  obtain kvs where m: "metadata = PDict kvs"
    using assms(6) py_get_dict by blast
  have h: "head_object E (py_str E file_id @ ''/'' @ py_str E original_filename) w2 =
             (Inl HeadNotFound, w2\<lparr>requests := requests w2 + 1\<rparr>)"
    using assms(9,10) by (simp add: head_object_def s3_request_def)
  have "download_try E event (w\<lparr>ticks := ticks w + 1\<rparr>) =
          (Inl HeadNotFound, w2\<lparr>requests := requests w2 + 1\<rparr>)"
    using assms(1-8) h unfolding m download_try_def
    by (simp add: io_defs py_get_PDict)
  then show ?thesis
    by (simp add: download_lambda_handler_def download_except_def io_defs HeadNotFound_def)
qed

section \<open>Retry policy of the object store client\<close>

lemma get_object_fault:
  "s3_fault E (requests w) = Some e \<Longrightarrow> get_object E key w = (Inl e, w\<lparr>requests := requests w + 1\<rparr>)"
  by (simp add: get_object_def s3_request_def)

lemma get_object_served:
  "s3_fault E (requests w) = None \<Longrightarrow>
   get_object E key w =
     (case map_of (objects w) key of None \<Rightarrow> Inl NoSuchKey | Some b \<Rightarrow> Inr b,
      w\<lparr>requests := requests w + 1\<rparr>)"
  by (simp add: get_object_def s3_request_def split: option.splits)

lemma put_object_fault:
  "s3_fault E (requests w) = Some e \<Longrightarrow> put_object E key b w = (Inl e, w\<lparr>requests := requests w + 1\<rparr>)"
  by (simp add: put_object_def s3_request_def)

lemma put_object_served:
  "s3_fault E (requests w) = None \<Longrightarrow>
   put_object E key b w = (Inr (), stored key b (w\<lparr>requests := requests w + 1\<rparr>))"
  by (simp add: put_object_def s3_request_def stored_def)

lemma is_transient_code:
  "is_transient e \<longleftrightarrow> (\<exists>c m. e = ClientError c m \<and> c \<in> set TRANSIENT_CODES)"
  by (cases e) (auto simp: TRANSIENT_CODES_def)

lemma transient_not_found: "is_transient e \<Longrightarrow> \<not> is_not_found e"
  by (cases e) auto

text \<open>One transient failure with attempts left: sleep and go round again.\<close>

lemma get_loop_retry:
  assumes "s3_fault E (requests w) = Some e" "is_transient e" "retries + 1 < mx" "0 \<le> retries"
  shows "s3_get_loop E key mx retries w =
           s3_get_loop E key mx (retries + 1)
             (sleep (2 ^ nat (retries + 1)) (w\<lparr>requests := requests w + 1\<rparr>))"
  using assms transient_not_found [OF assms(2)]
  by (subst s3_get_loop.simps) (auto simp: get_object_fault is_transient_code)

lemma get_loop_last:
  assumes "s3_fault E (requests w) = Some e" "retries < mx"
      and "\<not> is_transient e \<or> \<not> retries + 1 < mx"
  shows "s3_get_loop E key mx retries w =
           (if is_not_found e then Inr None else Inl e, w\<lparr>requests := requests w + 1\<rparr>)"
  using assms
  by (subst s3_get_loop.simps, cases e)
     (auto simp: get_object_fault is_transient_code)

lemma get_loop_served:
  assumes "s3_fault E (requests w) = None" "retries < mx"
  shows "s3_get_loop E key mx retries w =
           (Inr (map_of (objects w) key), w\<lparr>requests := requests w + 1\<rparr>)"
  using assms
  by (subst s3_get_loop.simps)
     (auto simp: get_object_served NoSuchKey_def split: option.splits)

lemma put_loop_retry:
  assumes "s3_fault E (requests w) = Some e" "is_transient e" "retries + 1 < mx"
  shows "s3_put_loop E key b mx retries w =
           s3_put_loop E key b mx (retries + 1)
             (sleep (2 ^ nat (retries + 1)) (w\<lparr>requests := requests w + 1\<rparr>))"
  using assms
  by (subst s3_put_loop.simps) (auto simp: put_object_fault is_transient_code)

lemma put_loop_last:
  assumes "s3_fault E (requests w) = Some e" "retries < mx"
      and "\<not> is_transient e \<or> \<not> retries + 1 < mx"
  shows "s3_put_loop E key b mx retries w = (Inl e, w\<lparr>requests := requests w + 1\<rparr>)"
  using assms
  by (subst s3_put_loop.simps, cases e)
     (auto simp: put_object_fault is_transient_code)

lemma put_loop_served:
  assumes "s3_fault E (requests w) = None" "retries < mx"
  shows "s3_put_loop E key b mx retries w =
           (Inr (PBool True), stored key b (w\<lparr>requests := requests w + 1\<rparr>))"
  using assms
  by (subst s3_put_loop.simps) (auto simp: put_object_served)

lemma backed_off_Suc:
  "sleep (2 ^ nat (int k + 1)) ((backed_off k w)\<lparr>requests := requests (backed_off k w) + 1\<rparr>) =
     backed_off (Suc k) w"
  by (simp add: backed_off_def sleep_def nat_add_distrib)

lemma get_loop_transients:
  assumes "\<forall>i<k. \<exists>e. s3_fault E (requests w + i) = Some e \<and> is_transient e" "int k < mx"
  shows "s3_get_loop E key mx 0 w = s3_get_loop E key mx (int k) (backed_off k w)"
  using assms
proof (induction k)
  case 0
  then show ?case by (simp add: backed_off_def)
next
  case (Suc k)
  from Suc.prems obtain e where e: "s3_fault E (requests w + k) = Some e" "is_transient e"
    by auto
  have "s3_get_loop E key mx 0 w = s3_get_loop E key mx (int k) (backed_off k w)"
    using Suc by simp
  also have "\<dots> = s3_get_loop E key mx (int k + 1)
            (sleep (2 ^ nat (int k + 1))
               ((backed_off k w)\<lparr>requests := requests (backed_off k w) + 1\<rparr>))"
    using e Suc.prems(2) by (intro get_loop_retry [where e = e]) (simp_all add: backed_off_def)
  also have "\<dots> = s3_get_loop E key mx (int k + 1) (backed_off (Suc k) w)"
    by (simp only: backed_off_Suc)
  also have "int k + 1 = int (Suc k)"
    by simp
  finally show ?case .
qed

lemma put_loop_transients:
  assumes "\<forall>i<k. \<exists>e. s3_fault E (requests w + i) = Some e \<and> is_transient e" "int k < mx"
  shows "s3_put_loop E key b mx 0 w = s3_put_loop E key b mx (int k) (backed_off k w)"
  using assms
proof (induction k)
  case 0
  then show ?case by (simp add: backed_off_def)
next
  case (Suc k)
  from Suc.prems obtain e where e: "s3_fault E (requests w + k) = Some e" "is_transient e"
    by auto
  have "s3_put_loop E key b mx 0 w = s3_put_loop E key b mx (int k) (backed_off k w)"
    using Suc by simp
  also have "\<dots> = s3_put_loop E key b mx (int k + 1)
            (sleep (2 ^ nat (int k + 1))
               ((backed_off k w)\<lparr>requests := requests (backed_off k w) + 1\<rparr>))"
    using e Suc.prems(2) by (intro put_loop_retry [where e = e]) (simp_all add: backed_off_def)
  also have "\<dots> = s3_put_loop E key b mx (int k + 1) (backed_off (Suc k) w)"
    by (simp only: backed_off_Suc)
  also have "int k + 1 = int (Suc k)"
    by simp
  finally show ?case .
qed

lemma backed_off_attempts:
  "(backed_off k w)\<lparr>requests := Suc (requests w + k)\<rparr> = attempts (Suc k) w"
  by (simp add: backed_off_def attempts_def)

text \<open>
  Claim C6: \<open>s3_get_with_retry\<close> and \<open>s3_put_with_retry\<close> make at most three attempts.
  When the first \<open>k\<close> attempts fail with \<open>SlowDown\<close>, \<open>InternalError\<close> or
  \<open>ServiceUnavailable\<close>, the operation sleeps \<open>2 ^ i\<close> seconds after the \<open>i\<close>-th of them and
  tries again; the attempt after them decides: served, the result is returned; a
  not-found failure of the get gives \<open>None\<close>; any other failure, and a transient failure
  of the third attempt, is raised to the caller. No request is sent after the deciding
  attempt.
\<close>

theorem s3_retry_policy:
  assumes "k < 3"
      and "\<forall>i<k. \<exists>e. s3_fault E (requests w + i) = Some e \<and> is_transient e"
      and "k = 2 \<or> \<not> (\<exists>e. s3_fault E (requests w + k) = Some e \<and> is_transient e)"
  shows "s3_get_with_retry E key DOWNLOAD_MAX_RETRIES w =
           (case s3_fault E (requests w + k) of
              None \<Rightarrow> Inr (map_of (objects w) key)
            | Some e \<Rightarrow> if is_not_found e then Inr None else Inl e,
            attempts (k + 1) w)
         \<and> s3_put_with_retry E key b UPLOAD_MAX_RETRIES w =
           (case s3_fault E (requests w + k) of
              None \<Rightarrow> (Inr (PBool True), stored key b (attempts (k + 1) w))
            | Some e \<Rightarrow> (Inl e, attempts (k + 1) w))"
proof -
  let ?w = "backed_off k w"
  have rq: "requests ?w = requests w + k" and ob: "objects ?w = objects w"
    by (simp_all add: backed_off_def)
  have lt: "int k < 3" using assms(1) by simp
  have last: "\<And>e. s3_fault E (requests w + k) = Some e \<Longrightarrow> \<not> is_transient e \<or> \<not> int k + 1 < 3"
    using assms(3) by auto
  have g: "s3_get_loop E key 3 0 w = s3_get_loop E key 3 (int k) ?w"
    by (rule get_loop_transients [OF assms(2) lt])
  have p: "s3_put_loop E key b 3 0 w = s3_put_loop E key b 3 (int k) ?w"
    by (rule put_loop_transients [OF assms(2) lt])
  show ?thesis
  proof (cases "s3_fault E (requests w + k)")
    case None
    then show ?thesis
      using g p lt get_loop_served [of E ?w "int k" 3 key] put_loop_served [of E ?w "int k" 3 key b]
      by (simp add: s3_get_with_retry_def s3_put_with_retry_def DOWNLOAD_MAX_RETRIES_def
                    UPLOAD_MAX_RETRIES_def rq ob backed_off_attempts)
  next
    case (Some e)
    then show ?thesis
      using g p lt last [OF Some] get_loop_last [of E ?w e "int k" 3 key]
            put_loop_last [of E ?w e "int k" 3 key b]
      by (simp add: s3_get_with_retry_def s3_put_with_retry_def DOWNLOAD_MAX_RETRIES_def
                    UPLOAD_MAX_RETRIES_def rq backed_off_attempts)
  qed
qed

theorem s3_retry_policy_witness:
  "s3_get_with_retry slow_env ''abc/metadata.json'' DOWNLOAD_MAX_RETRIES example_world =
     (Inr (Some expired_metadata_text), example_world\<lparr>requests := 2, sleeps := [2]\<rparr>)
   \<and> s3_put_with_retry overloaded_env ''k'' ''v'' UPLOAD_MAX_RETRIES example_world =
     (Inl SlowDown, example_world\<lparr>requests := 3, sleeps := [2, 4]\<rparr>)
   \<and> s3_get_with_retry denied_env ''abc/metadata.json'' DOWNLOAD_MAX_RETRIES example_world =
     (Inl AccessDenied, example_world\<lparr>requests := 1\<rparr>)
   \<and> s3_get_with_retry example_env ''nope/metadata.json'' DOWNLOAD_MAX_RETRIES example_world =
     (Inr None, example_world\<lparr>requests := 1\<rparr>)"
proof -
  have a: "s3_get_with_retry slow_env ''abc/metadata.json'' DOWNLOAD_MAX_RETRIES example_world =
     (Inr (Some expired_metadata_text), example_world\<lparr>requests := 2, sleeps := [2]\<rparr>)"
    using s3_retry_policy [of 1 slow_env example_world "''abc/metadata.json''" "''v''"]
    by (simp add: slow_env_def example_env_def example_world_def SlowDown_def attempts_def)
  have b: "s3_put_with_retry overloaded_env ''k'' ''v'' UPLOAD_MAX_RETRIES example_world =
     (Inl SlowDown, example_world\<lparr>requests := 3, sleeps := [2, 4]\<rparr>)"
    using s3_retry_policy [of 2 overloaded_env example_world "''k''" "''v''"]
    by (simp add: overloaded_env_def example_env_def example_world_def SlowDown_def attempts_def
                  upt_rec)
  have c: "s3_get_with_retry denied_env ''abc/metadata.json'' DOWNLOAD_MAX_RETRIES example_world =
     (Inl AccessDenied, example_world\<lparr>requests := 1\<rparr>)"
    using s3_retry_policy [of 0 denied_env example_world "''abc/metadata.json''" "''v''"]
    by (simp add: denied_env_def example_env_def example_world_def AccessDenied_def attempts_def)
  have d: "s3_get_with_retry example_env ''nope/metadata.json'' DOWNLOAD_MAX_RETRIES example_world =
     (Inr None, example_world\<lparr>requests := 1\<rparr>)"
    using s3_retry_policy [of 0 example_env example_world "''nope/metadata.json''" "''v''"]
    by (simp add: example_env_def example_world_def attempts_def)
  from a b c d show ?thesis by simp
qed

section \<open>Upload handler: validation and the metadata record\<close>

lemma put_loop_stored:
  "s3_put_loop E key b mx r w = (Inr v, w') \<Longrightarrow> r < mx \<Longrightarrow>
     map_of (objects w') key = Some b \<and> ticks w' = ticks w"
proof (induction E key b mx r w rule: s3_put_loop.induct)
  case (1 E key b mx r w)
  show ?case
  proof (cases "s3_fault E (requests w)")
    case None
    with "1.prems" show ?thesis
      by (auto simp: put_loop_served stored_def)
  next
    case (Some e)
    show ?thesis
    proof (cases "is_transient e \<and> r + 1 < mx")
      case True
      then obtain c m where e: "e = ClientError c m" "c \<in> set TRANSIENT_CODES"
        by (auto simp: is_transient_code)
      have po: "put_object E key b w = (Inl e, w\<lparr>requests := requests w + 1\<rparr>)"
        using Some by (rule put_object_fault)
      have "s3_put_loop E key b mx (r + 1) (sleep (2 ^ nat (r + 1)) (w\<lparr>requests := requests w + 1\<rparr>)) = (Inr v, w')"
        using "1.prems" put_loop_retry [OF Some] True by simp
      from "1.IH" [OF "1.prems"(2) po [symmetric] refl e(1) _ this] True e
      show ?thesis by (simp add: sleep_def)
    next
      case False
      with "1.prems" put_loop_last [OF Some, of r mx key b] show ?thesis by auto
    qed
  qed
qed

lemma upload_store_result:
  assumes "upload_store E filename content_type file_size w = (Inr r, w')"
  shows "\<exists>expiration.
           add_24_hours (utcnow_at E (ticks w)) = Inr expiration
         \<and> map_of (objects w') (uuid4 E @ ''/metadata.json'') =
             Some (json_dumps E (PDict [(''original_filename'', filename),
                                        (''content_type'', content_type),
                                        (''expiration_time'', PStr (isoformat expiration)),
                                        (''upload_time'', PStr (isoformat (utcnow_at E (ticks w + 1)))),
                                        (''file_size'', PStr (py_str E file_size))]))
         \<and> statusCode r = 200
         \<and> py_get (body r) ''expiration_time'' = Inr (PStr (isoformat expiration))"
proof -
  from assms obtain expiration where ex: "add_24_hours (utcnow_at E (ticks w)) = Inr expiration"
    by (auto simp: upload_store_def io_defs Let_def split: sum.splits prod.splits)
  let ?md = "json_dumps E (PDict [(''original_filename'', filename),
                                        (''content_type'', content_type),
                                        (''expiration_time'', PStr (isoformat expiration)),
                                        (''upload_time'', PStr (isoformat (utcnow_at E (ticks w + 1)))),
                                        (''file_size'', PStr (py_str E file_size))])"
  let ?w2 = "w\<lparr>ticks := ticks w + 1 + 1\<rparr>"
  from assms ex obtain v w3 where
    put: "s3_put_loop E (uuid4 E @ ''/metadata.json'') ?md 3 0 ?w2 = (Inr v, w3)"
    and rest: "bind_io (generate_upload_url E (uuid4 E) filename content_type file_size)
                 (\<lambda>upload_data. returns \<lparr>statusCode = 200, headers = json_headers,
               body = PDict [(''file_id'', PStr (uuid4 E)),
                             (''upload_data'', upload_data),
                             (''download_path'', PStr (''/download/'' @ uuid4 E)),
                             (''expiration_time'', PStr (isoformat expiration))]\<rparr>) w3 = (Inr r, w')"
    by (auto simp: upload_store_def io_defs Let_def s3_put_with_retry_def UPLOAD_MAX_RETRIES_def
             split: sum.splits prod.splits)
  from put_loop_stored [OF put] have st: "map_of (objects w3) (uuid4 E @ ''/metadata.json'') = Some ?md"
    by simp
  from rest have "w' = w3" and "statusCode r = 200"
    and "py_get (body r) ''expiration_time'' = Inr (PStr (isoformat expiration))"
    by (auto simp: io_defs generate_upload_url_def py_get_def split: sum.splits prod.splits)
  with ex st show ?thesis by auto
qed

lemma upload_try_result:
  assumes "upload_try E event w = (Inr r, w')"
  shows "(statusCode r = 400 \<and> w' = w \<and> (\<exists>msg. r = error_response 400 msg))
         \<or> (\<exists>filename content_type file_size.
               upload_store E filename content_type file_size w = (Inr r, w'))"
  using assms unfolding upload_try_def
  by (auto simp: io_defs error_response_def split: sum.splits prod.splits if_splits)

text \<open>
  The checks of a request that parsed to a dictionary, in their order. A request that is
  rejected with 400 has sent nothing to the store, and a request whose size is an integer
  above the limit, or whose content type is not in the list, is rejected with 400.
\<close>

lemma upload_validation_order:
  assumes "py_get event ''body'' = Inr event_body"
      and "(case event_body of PStr s \<Rightarrow> json_loads E s
            | _ \<Rightarrow> get_default event ''body'' (PDict [])) = Inr request"
      and "py_get request ''filename'' = Inr filename"
      and "py_get request ''content_type'' = Inr content_type"
      and "py_get request ''file_size'' = Inr file_size"
  shows "upload_try E event w =
           (if \<not> truthy filename
            then (Inr (error_response 400 ''Filename is required''), w)
            else if \<not> truthy content_type
            then (Inr (error_response 400 ''Content type is required''), w)
            else if \<not> truthy file_size \<or> \<not> isinstance_int file_size
            then (Inr (error_response 400 ''Valid file size is required''), w)
            else if int_value file_size > MAX_FILE_SIZE
            then (Inr (error_response 400 ''File size exceeds the maximum limit of 10.0MB''), w)
            else if \<not> in_allowed_content_types content_type
            then (Inr (error_response 400
                         (''Content type '' @ py_str E content_type @ '' is not allowed'')), w)
            else upload_store E filename content_type file_size w)"
  using assms unfolding upload_try_def
  by (simp add: io_defs)

lemma upload_rejection_has_no_effect:
  assumes "upload_lambda_handler E event w = (Inr r, w')" and "statusCode r = 400"
  shows "objects w' = objects w \<and> requests w' = requests w \<and> sleeps w' = sleeps w"
proof (cases "upload_try E event (w\<lparr>ticks := ticks w + 1\<rparr>)")
  case (Pair res w1)
  show ?thesis
  proof (cases res)
    case (Inl e)
    with Pair assms show ?thesis
      by (auto simp: upload_lambda_handler_def upload_except_def io_defs error_response_def)
  next
    case (Inr r1)
    with Pair assms have "r1 = r" "w1 = w'"
      by (simp_all add: upload_lambda_handler_def io_defs)
    with Pair Inr upload_try_result [of E event "w\<lparr>ticks := ticks w + 1\<rparr>" r w']
         upload_store_result [of E _ _ _ "w\<lparr>ticks := ticks w + 1\<rparr>" r w'] assms(2)
    show ?thesis by auto
  qed
qed

lemma upload_rejects_oversized_or_disallowed:
  assumes "py_get event ''body'' = Inr event_body"
      and "(case event_body of PStr s \<Rightarrow> json_loads E s
            | _ \<Rightarrow> get_default event ''body'' (PDict [])) = Inr request"
      and "py_get request ''file_size'' = Inr file_size"
      and "py_get request ''content_type'' = Inr content_type"
      and "(\<exists>n. file_size = PInt n \<and> n > MAX_FILE_SIZE) \<or> \<not> in_allowed_content_types content_type"
  shows "\<exists>msg. upload_lambda_handler E event w =
           (Inr (error_response 400 msg), w\<lparr>ticks := ticks w + 1\<rparr>)"
proof -
  obtain kvs where r: "request = PDict kvs"
    using assms(3) py_get_dict by blast
  have "\<exists>msg. upload_try E event (w\<lparr>ticks := ticks w + 1\<rparr>) =
          (Inr (error_response 400 msg), w\<lparr>ticks := ticks w + 1\<rparr>)"
    using assms unfolding r upload_try_def
    by (auto simp: io_defs py_get_PDict)
  then show ?thesis
    by (auto simp: upload_lambda_handler_def io_defs)
qed

text \<open>A negative size passes the checks of an otherwise valid request.\<close>

lemma upload_negative_size_passes_validation:
  assumes "py_get event ''body'' = Inr event_body"
      and "(case event_body of PStr s \<Rightarrow> json_loads E s
            | _ \<Rightarrow> get_default event ''body'' (PDict [])) = Inr request"
      and "py_get request ''filename'' = Inr filename"
      and "py_get request ''content_type'' = Inr content_type"
      and "py_get request ''file_size'' = Inr (PInt n)"
      and "truthy filename" and "in_allowed_content_types content_type" and "n < 0"
  shows "upload_try E event w = upload_store E filename content_type (PInt n) w"
proof -
  have "truthy content_type"
    using assms(7) by (cases content_type) (auto simp: in_allowed_content_types_def ALLOWED_CONTENT_TYPES_def)
  with assms show ?thesis
    by (simp add: upload_validation_order [OF assms(1-5)] MAX_FILE_SIZE_def)
qed

text \<open>
  Claim C4 at the request \<open>{"filename": "a.txt", "content_type": "text/plain",
  "file_size": -5}\<close>: \<open>not file_size\<close> is false for \<open>-5\<close> and \<open>-5\<close> is an \<open>int\<close>, so
  the size check lets it through; the handler answers 200 and writes a metadata record
  with \<open>file_size\<close> "-5".
\<close>

theorem upload_accepts_negative_file_size:
  "upload_lambda_handler example_env (upload_event ''-5'') empty_world =
     (Inr (example_upload_response ''2026-11-04T12:00:00''),
      \<lparr>objects =
         [(''0f8fad5b-d9cb-469f-a165-70867728950e/metadata.json'',
           ''{\"original_filename\": \"a.txt\", \"content_type\": \"text/plain\", \"expiration_time\": \"2026-11-04T12:00:00\", \"upload_time\": \"2026-11-03T12:00:00\", \"file_size\": \"-5\"}'')],
       requests = 1, ticks = 3, sleeps = []\<rparr>)"
  by code_simp

text \<open>
  Claim C3 at the request \<open>{"filename": "a.txt", "content_type": "text/plain",
  "file_size": -1}\<close>: the third check, "file_size present and positive integer", does
  not hold of it, and yet the handler sends the metadata record to the store and
  answers 200.
\<close>

theorem upload_third_check_passes_negative_size:
  "upload_lambda_handler example_env (upload_event ''-1'') empty_world =
     (Inr (example_upload_response ''2026-11-04T12:00:00''),
      \<lparr>objects =
         [(''0f8fad5b-d9cb-469f-a165-70867728950e/metadata.json'',
           ''{\"original_filename\": \"a.txt\", \"content_type\": \"text/plain\", \"expiration_time\": \"2026-11-04T12:00:00\", \"upload_time\": \"2026-11-03T12:00:00\", \"file_size\": \"-1\"}'')],
       requests = 1, ticks = 3, sleeps = []\<rparr>)"
  by code_simp

text \<open>
  Claim C9, as the code has it: after every successful upload the metadata record at
  \<open>{file_id}/metadata.json\<close> holds \<open>expiration_time\<close>, the clock reading taken for it plus
  24 hours, and \<open>upload_time\<close>, the next clock reading, both in ISO-8601 form, and the
  response carries the same \<open>expiration_time\<close> string.
\<close>

theorem upload_expiration_time:
  assumes "upload_lambda_handler E event w = (Inr r, w')" and "statusCode r = 200"
  shows "\<exists>expiration filename content_type file_size.
           add_24_hours (utcnow_at E (ticks w + 1)) = Inr expiration
         \<and> map_of (objects w') (uuid4 E @ ''/metadata.json'') =
             Some (json_dumps E (PDict [(''original_filename'', filename),
                                        (''content_type'', content_type),
                                        (''expiration_time'', PStr (isoformat expiration)),
                                        (''upload_time'', PStr (isoformat (utcnow_at E (ticks w + 2)))),
                                        (''file_size'', PStr (py_str E file_size))]))
         \<and> py_get (body r) ''expiration_time'' = Inr (PStr (isoformat expiration))"
proof (cases "upload_try E event (w\<lparr>ticks := ticks w + 1\<rparr>)")
  case (Pair res w1)
  show ?thesis
  proof (cases res)
    case (Inl e)
    with Pair assms show ?thesis
      by (auto simp: upload_lambda_handler_def upload_except_def io_defs error_response_def)
  next
    case (Inr r1)
    with Pair assms have "r1 = r" "w1 = w'"
      by (simp_all add: upload_lambda_handler_def io_defs)
    with Pair Inr upload_try_result [of E event "w\<lparr>ticks := ticks w + 1\<rparr>" r w'] assms(2)
    obtain filename content_type file_size where
      "upload_store E filename content_type file_size (w\<lparr>ticks := ticks w + 1\<rparr>) = (Inr r, w')"
      by auto
    from upload_store_result [OF this] show ?thesis
      by (simp add: add.assoc) blast
  qed
qed

theorem upload_expiration_time_witness:
  "\<exists>filename content_type file_size.
     map_of (objects (snd (upload_lambda_handler ticking_env (upload_event ''100'') empty_world)))
       ''0f8fad5b-d9cb-469f-a165-70867728950e/metadata.json'' =
     Some (json_dumps ticking_env
             (PDict [(''original_filename'', filename),
                     (''content_type'', content_type),
                     (''expiration_time'', PStr ''2026-11-04T12:00:00.000001''),
                     (''upload_time'', PStr ''2026-11-03T12:00:00.000002''),
                     (''file_size'', PStr (py_str ticking_env file_size))]))"
proof -
  let ?X = "upload_lambda_handler ticking_env (upload_event ''100'') empty_world"
  have "case fst ?X of Inl e \<Rightarrow> False | Inr r \<Rightarrow> statusCode r = 200"
    by code_simp
  then obtain r where r: "fst ?X = Inr r" "statusCode r = 200"
    by (cases "fst ?X") auto
  have h: "?X = (Inr r, snd ?X)"
    using r(1) by (cases ?X) simp
  have e1: "add_24_hours (utcnow_at ticking_env (ticks empty_world + 1)) =
              Inr \<lparr>year = 2026, month = 11, day = 4, hour = 12, minute = 0, second = 0,
                    microsecond = 1\<rparr>"
    by code_simp
  have i1: "isoformat \<lparr>year = 2026, month = 11, day = 4, hour = 12, minute = 0, second = 0,
                       microsecond = 1\<rparr> = ''2026-11-04T12:00:00.000001''"
    by code_simp
  have i2: "isoformat (utcnow_at ticking_env (ticks empty_world + 2)) =
              ''2026-11-03T12:00:00.000002''"
    by code_simp
  have u: "uuid4 ticking_env @ ''/metadata.json'' =
             ''0f8fad5b-d9cb-469f-a165-70867728950e/metadata.json''"
    by (simp add: ticking_env_def example_env_def)
  from upload_expiration_time [OF h r(2)]
  obtain expiration filename content_type file_size where
    a: "add_24_hours (utcnow_at ticking_env (ticks empty_world + 1)) = Inr expiration"
    and m: "map_of (objects (snd ?X)) (uuid4 ticking_env @ ''/metadata.json'') =
              Some (json_dumps ticking_env
                      (PDict [(''original_filename'', filename),
                              (''content_type'', content_type),
                              (''expiration_time'', PStr (isoformat expiration)),
                              (''upload_time'',
                               PStr (isoformat (utcnow_at ticking_env (ticks empty_world + 2)))),
                              (''file_size'', PStr (py_str ticking_env file_size))]))"
    by blast
  from a have ex: "expiration = \<lparr>year = 2026, month = 11, day = 4, hour = 12, minute = 0,
                                   second = 0, microsecond = 1\<rparr>"
    unfolding e1 by simp
  have i3: "isoformat expiration = ''2026-11-04T12:00:00.000001''"
    unfolding ex by (rule i1)
  show ?thesis
    using m unfolding i3 i2 u by blast
qed


text \<open>
  The claim as the specification words it fails when the clock moves between the two
  readings: the stored \<open>expiration_time\<close> ends in \<open>.000001\<close>, the stored \<open>upload_time\<close> plus
  24 hours ends in \<open>.000002\<close>.
\<close>

theorem upload_expiration_not_upload_time_plus_24h_counterexample:
  "upload_lambda_handler ticking_env (upload_event ''100'') empty_world =
     (Inr (example_upload_response ''2026-11-04T12:00:00.000001''),
      \<lparr>objects =
         [(''0f8fad5b-d9cb-469f-a165-70867728950e/metadata.json'',
           ''{\"original_filename\": \"a.txt\", \"content_type\": \"text/plain\", \"expiration_time\": \"2026-11-04T12:00:00.000001\", \"upload_time\": \"2026-11-03T12:00:00.000002\", \"file_size\": \"100\"}'')],
       requests = 1, ticks = 3, sleeps = []\<rparr>)
   \<and> isoformat (example_now\<lparr>microsecond := 2\<rparr>) = ''2026-11-03T12:00:00.000002''
   \<and> map_sum id isoformat (add_24_hours (example_now\<lparr>microsecond := 2\<rparr>)) =
       Inr ''2026-11-04T12:00:00.000002''"
  by code_simp

section \<open>The handlers at their public interface\<close>

lemma upload_handler_cases:
  "(\<exists>e w'. upload_try E event (w\<lparr>ticks := ticks w + 1\<rparr>) = (Inl e, w')
            \<and> upload_lambda_handler E event w =
                (Inr (error_response 500 ''An internal server error occurred''), w'))
   \<or> (\<exists>r w'. upload_try E event (w\<lparr>ticks := ticks w + 1\<rparr>) = (Inr r, w')
            \<and> upload_lambda_handler E event w = (Inr r, w'))"
  by (cases "upload_try E event (w\<lparr>ticks := ticks w + 1\<rparr>)")
     (auto simp: upload_lambda_handler_def upload_except_def io_defs split: sum.splits)

lemma download_handler_cases:
  "(\<exists>k w'. download_try E event (w\<lparr>ticks := ticks w + 1\<rparr>) = (Inl (KeyError k), w')
            \<and> download_lambda_handler E event w =
                (Inr (error_response 400 (''Missing required parameter: '' @ str_exn (KeyError k))), w'))
   \<or> (\<exists>e w'. download_try E event (w\<lparr>ticks := ticks w + 1\<rparr>) = (Inl e, w')
            \<and> (\<forall>k. e \<noteq> KeyError k)
            \<and> download_lambda_handler E event w =
                (Inr (error_response 500 ''An internal server error occurred''), w'))
   \<or> (\<exists>r w'. download_try E event (w\<lparr>ticks := ticks w + 1\<rparr>) = (Inr r, w')
            \<and> download_lambda_handler E event w = (Inr r, w'))"
proof (cases "download_try E event (w\<lparr>ticks := ticks w + 1\<rparr>)")
  case (Pair res w')
  show ?thesis
  proof (cases res)
    case (Inl e)
    with Pair show ?thesis
      by (cases e) (simp_all add: download_lambda_handler_def download_except_def io_defs)
  next
    case (Inr r)
    with Pair show ?thesis
      by (simp add: download_lambda_handler_def io_defs)
  qed
qed

lemma cleanup_try_status: "cleanup_try E w = (Inr r, w') \<Longrightarrow> statusCode r = 200"
  by (auto simp: cleanup_try_def io_defs split: sum.splits prod.splits)

lemma cleanup_handler_cases:
  "(\<exists>e w'. cleanup_try E w = (Inl e, w')
            \<and> cleanup_lambda_handler E event w =
                (Inr \<lparr>statusCode = 500, headers = [],
                      body = PDict [(''error'', PStr (''An error occurred: '' @ str_exn e))]\<rparr>, w'))
   \<or> (\<exists>r w'. cleanup_try E w = (Inr r, w') \<and> statusCode r = 200
            \<and> cleanup_lambda_handler E event w = (Inr r, w'))"
  using cleanup_try_status [of E w]
  by (cases "cleanup_try E w")
     (auto simp: cleanup_lambda_handler_def cleanup_except_def io_defs split: sum.splits)

lemma upload_handler_total:
  "\<exists>r w'. upload_lambda_handler E event w = (Inr r, w')
      \<and> (statusCode r = 200
           \<or> (statusCode r \<in> {400, 500} \<and> (\<exists>msg. body r = PDict [(''error'', PStr msg)])))"
  using upload_handler_cases [of E event w]
        upload_try_result [of E event "w\<lparr>ticks := ticks w + 1\<rparr>"]
        upload_store_result [of E _ _ _ "w\<lparr>ticks := ticks w + 1\<rparr>"]
  by (fastforce simp: error_response_def)

lemma download_handler_total:
  "\<exists>r w'. download_lambda_handler E event w = (Inr r, w')
      \<and> (statusCode r = 200
           \<or> (statusCode r \<in> {400, 404, 500} \<and> (\<exists>msg. body r = PDict [(''error'', PStr msg)])))"
  using download_handler_cases [of E event w]
        download_try_responses [of E event "w\<lparr>ticks := ticks w + 1\<rparr>"]
  by (fastforce simp: error_response_def)

lemma cleanup_handler_total:
  "\<exists>r w'. cleanup_lambda_handler E event w = (Inr r, w')
      \<and> (statusCode r = 200
           \<or> (statusCode r = 500 \<and> (\<exists>msg. body r = PDict [(''error'', PStr msg)])))"
  using cleanup_handler_cases [of E w event] by auto

text \<open>
  Claim C10: for every event, every environment and every state of the store the upload
  handler and the download handler return a response and raise nothing; the status is
  200, 400, 404 or 500 (the upload handler never answers 404), and every response whose
  status is not 200 has a body of the form \<open>{"error": message}\<close>.
\<close>

theorem handlers_total:
  "(\<exists>r w'. upload_lambda_handler E event w = (Inr r, w')
      \<and> (statusCode r = 200
           \<or> (statusCode r \<in> {400, 500} \<and> (\<exists>msg. body r = PDict [(''error'', PStr msg)]))))
   \<and> (\<exists>r w'. download_lambda_handler E event w = (Inr r, w')
      \<and> (statusCode r = 200
           \<or> (statusCode r \<in> {400, 404, 500}
               \<and> (\<exists>msg. body r = PDict [(''error'', PStr msg)]))))"
  using upload_handler_total [of E event w] download_handler_total [of E event w]
  by blast

theorem handlers_total_witness:
  "(\<exists>w'. upload_lambda_handler example_env PNone empty_world =
            (Inr (error_response 500 ''An internal server error occurred''), w'))
   \<and> (\<exists>w'. download_lambda_handler example_env (PDict []) example_world =
            (Inr (error_response 400
                   (''Missing required parameter: '' @ str_exn (KeyError ''pathParameters''))), w'))"
proof -
  have u: "fst (upload_lambda_handler example_env PNone empty_world) =
             Inr (error_response 500 ''An internal server error occurred'')"
    by code_simp
  have d: "fst (download_lambda_handler example_env (PDict []) example_world) =
             Inr (error_response 400
                    (''Missing required parameter: '' @ str_exn (KeyError ''pathParameters'')))"
    by code_simp
  from handlers_total [of example_env PNone empty_world]
  obtain r w' where "upload_lambda_handler example_env PNone empty_world = (Inr r, w')"
    by blast
  with u have 1: "\<exists>w'. upload_lambda_handler example_env PNone empty_world =
            (Inr (error_response 500 ''An internal server error occurred''), w')"
    by auto
  from handlers_total [of example_env "PDict []" example_world]
  obtain r' w'' where "download_lambda_handler example_env (PDict []) example_world = (Inr r', w'')"
    by blast
  with d have 2: "\<exists>w'. download_lambda_handler example_env (PDict []) example_world =
            (Inr (error_response 400
                   (''Missing required parameter: '' @ str_exn (KeyError ''pathParameters''))), w')"
    by auto
  from 1 2 show ?thesis by blast
qed

text \<open>
  Claim C8, as the code has it: an exception that leaves the \<open>try\<close> block of the upload
  handler, and one other than \<open>KeyError\<close> that leaves the \<open>try\<close> block of the download
  handler, is answered with 500 and the fixed body "An internal server error occurred",
  whatever the exception; an exception that leaves the sweep of the cleanup handler is
  answered with 500 and the body "An error occurred: " followed by the message of the
  exception. Every response of the three handlers whose status is not 200 has status
  400, 404 or 500 and a body of the form \<open>{"error": message}\<close>.
\<close>

theorem unexpected_failure_responses:
  "(upload_try E event (w\<lparr>ticks := ticks w + 1\<rparr>) = (Inl e, w') \<longrightarrow>
      upload_lambda_handler E event w =
        (Inr \<lparr>statusCode = 500, headers = json_headers, body = internal_error_body\<rparr>, w'))
   \<and> (download_try E event (w\<lparr>ticks := ticks w + 1\<rparr>) = (Inl e, w') \<and> (\<forall>k. e \<noteq> KeyError k) \<longrightarrow>
      download_lambda_handler E event w =
        (Inr \<lparr>statusCode = 500, headers = json_headers, body = internal_error_body\<rparr>, w'))
   \<and> (cleanup_try E w = (Inl e, w') \<longrightarrow>
      cleanup_lambda_handler E event w =
        (Inr \<lparr>statusCode = 500, headers = [],
              body = PDict [(''error'', PStr (''An error occurred: '' @ str_exn e))]\<rparr>, w'))
   \<and> (\<forall>r. (fst (upload_lambda_handler E event w) = Inr r
            \<or> fst (download_lambda_handler E event w) = Inr r
            \<or> fst (cleanup_lambda_handler E event w) = Inr r)
           \<and> statusCode r \<noteq> 200 \<longrightarrow>
          statusCode r \<in> {400, 404, 500} \<and> (\<exists>msg. body r = PDict [(''error'', PStr msg)]))"
proof (intro conjI impI allI)
  assume "upload_try E event (w\<lparr>ticks := ticks w + 1\<rparr>) = (Inl e, w')"
  then show "upload_lambda_handler E event w =
        (Inr \<lparr>statusCode = 500, headers = json_headers, body = internal_error_body\<rparr>, w')"
    using upload_handler_cases [of E event w]
    by (auto simp: error_response_def internal_error_body_def)
next
  assume "download_try E event (w\<lparr>ticks := ticks w + 1\<rparr>) = (Inl e, w') \<and> (\<forall>k. e \<noteq> KeyError k)"
  then show "download_lambda_handler E event w =
        (Inr \<lparr>statusCode = 500, headers = json_headers, body = internal_error_body\<rparr>, w')"
    using download_handler_cases [of E event w]
    by (auto simp: error_response_def internal_error_body_def)
next
  assume "cleanup_try E w = (Inl e, w')"
  then show "cleanup_lambda_handler E event w =
        (Inr \<lparr>statusCode = 500, headers = [],
              body = PDict [(''error'', PStr (''An error occurred: '' @ str_exn e))]\<rparr>, w')"
    using cleanup_handler_cases [of E w event] by auto
next
  fix r
  assume a: "(fst (upload_lambda_handler E event w) = Inr r
            \<or> fst (download_lambda_handler E event w) = Inr r
            \<or> fst (cleanup_lambda_handler E event w) = Inr r)
           \<and> statusCode r \<noteq> 200"
  from a upload_handler_total [of E event w] download_handler_total [of E event w]
       cleanup_handler_total [of E event w]
  show "statusCode r \<in> {400, 404, 500}" and "\<exists>msg. body r = PDict [(''error'', PStr msg)]"
    by auto
qed

theorem unexpected_failure_responses_witness:
  "upload_lambda_handler example_env PNone empty_world =
     (Inr \<lparr>statusCode = 500, headers = json_headers, body = internal_error_body\<rparr>,
      empty_world\<lparr>ticks := 1\<rparr>)
   \<and> download_lambda_handler example_env (download_event ''junk'') example_world =
     (Inr \<lparr>statusCode = 500, headers = json_headers, body = internal_error_body\<rparr>,
      example_world\<lparr>requests := 1, ticks := 1\<rparr>)
   \<and> cleanup_lambda_handler denied_env PNone example_world =
     (Inr \<lparr>statusCode = 500, headers = [],
           body = PDict [(''error'', PStr (''An error occurred: '' @ str_exn AccessDenied))]\<rparr>,
      example_world\<lparr>requests := 1\<rparr>)
   \<and> statusCode (error_response 404 ''File not found'') \<in> {400, 404, 500}"
proof -
  have a: "upload_try example_env PNone (empty_world\<lparr>ticks := ticks empty_world + 1\<rparr>) =
             (Inl (PyError ''AttributeError'' ''object has no attribute get''),
              empty_world\<lparr>ticks := 1\<rparr>)"
    by code_simp
  have b: "download_try example_env (download_event ''junk'')
             (example_world\<lparr>ticks := ticks example_world + 1\<rparr>) =
             (Inl (PyError ''JSONDecodeError'' ''Expecting value''),
              example_world\<lparr>requests := 1, ticks := 1\<rparr>)"
    by code_simp
  have c: "cleanup_try denied_env example_world =
             (Inl AccessDenied, example_world\<lparr>requests := 1\<rparr>)"
    by code_simp
  have d: "fst (download_lambda_handler example_env (download_event ''nope'') example_world) =
             Inr (error_response 404 ''File not found'')"
    by code_simp
  have s: "statusCode (error_response 404 ''File not found'') \<noteq> 200"
    by (simp add: error_response_def)
  have 1: "upload_lambda_handler example_env PNone empty_world =
     (Inr \<lparr>statusCode = 500, headers = json_headers, body = internal_error_body\<rparr>,
      empty_world\<lparr>ticks := 1\<rparr>)"
    using unexpected_failure_responses
            [of example_env PNone empty_world "PyError ''AttributeError'' ''object has no attribute get''"
                "empty_world\<lparr>ticks := 1\<rparr>"] a
    by blast
  have 2: "download_lambda_handler example_env (download_event ''junk'') example_world =
     (Inr \<lparr>statusCode = 500, headers = json_headers, body = internal_error_body\<rparr>,
      example_world\<lparr>requests := 1, ticks := 1\<rparr>)"
    using unexpected_failure_responses
            [of example_env "download_event ''junk''" example_world
                "PyError ''JSONDecodeError'' ''Expecting value''"
                "example_world\<lparr>requests := 1, ticks := 1\<rparr>"] b
    by blast
  have 3: "cleanup_lambda_handler denied_env PNone example_world =
     (Inr \<lparr>statusCode = 500, headers = [],
           body = PDict [(''error'', PStr (''An error occurred: '' @ str_exn AccessDenied))]\<rparr>,
      example_world\<lparr>requests := 1\<rparr>)"
    using unexpected_failure_responses
            [of denied_env PNone example_world AccessDenied "example_world\<lparr>requests := 1\<rparr>"] c
    by blast
  have 4: "statusCode (error_response 404 ''File not found'') \<in> {400, 404, 500}"
    using unexpected_failure_responses
            [of example_env "download_event ''nope''" example_world AccessDenied example_world] d s
    by blast
  from 1 2 3 4 show ?thesis by blast
qed

text \<open>
  The claim as the specification words it fails at the cleanup handler: when the store
  refuses the listing, the body of the 500 response contains the message of the exception.
\<close>

theorem cleanup_error_shows_exception_counterexample:
  "cleanup_lambda_handler denied_env PNone example_world =
     (Inr \<lparr>statusCode = 500, headers = [],
           body = PDict [(''error'', PStr ''An error occurred: An error occurred (AccessDenied) when calling the ListObjectsV2 operation: Access Denied'')]\<rparr>,
      example_world\<lparr>requests := 1\<rparr>)
   \<and> str_exn AccessDenied =
       ''An error occurred (AccessDenied) when calling the ListObjectsV2 operation: Access Denied''"
  by code_simp

section \<open>Cleanup sweeper: which items a sweep deletes\<close>


subsection \<open>Listings and single requests\<close>

lemma s3_request_no_fault:
  "s3_fault E (requests w) = None \<Longrightarrow> s3_request E m w = m (w\<lparr>requests := requests w + 1\<rparr>)"
  by (simp add: s3_request_def)

lemma chunks_concat: "concat (chunks n xs) = xs"
proof (induction n xs rule: chunks.induct)
  case (1 n xs)
  show ?case
  proof (cases "n = 0 \<or> length xs \<le> n")
    case True
    then show ?thesis by (subst chunks.simps) simp
  next
    case False
    with "1.IH" have "concat (chunks n (drop n xs)) = drop n xs" by simp
    with False show ?thesis by (subst chunks.simps) simp
  qed
qed

lemma chunks_map: "chunks n (map f xs) = map (map f) (chunks n xs)"
proof (induction n xs rule: chunks.induct)
  case (1 n xs)
  show ?case
  proof (cases "n = 0 \<or> length xs \<le> n")
    case True
    then show ?thesis by (subst chunks.simps, subst (2) chunks.simps) auto
  next
    case False
    with "1.IH" have "chunks n (map f (drop n xs)) = map (map f) (chunks n (drop n xs))" by simp
    with False show ?thesis
      by (subst chunks.simps, subst (2) chunks.simps) (simp add: take_map drop_map)
  qed
qed

lemma rstrip_good: "CHR ''/'' \<notin> set fid \<Longrightarrow> rstrip_slash (fid @ ''/'') = fid"
proof -
  assume a: "CHR ''/'' \<notin> set fid"
  have "dropWhile (\<lambda>c. c = CHR ''/'') (rev fid) = rev fid"
    using a by (cases "rev fid") (auto simp: dropWhile_eq_self_iff)
  then show ?thesis by (simp add: rstrip_slash_def)
qed

lemma starts_with_good:
  assumes "CHR ''/'' \<notin> set fid"
  shows "starts_with (fid @ ''/'') k \<longleftrightarrow> has_delimiter k \<and> item_of k = fid"
proof
  assume "starts_with (fid @ ''/'') k"
  then have "take (length fid + 1) k = fid @ ''/''"
    by (simp add: starts_with_def)
  then have k: "k = fid @ CHR ''/'' # drop (length fid + 1) k"
    by (metis append_take_drop_id append.assoc append_Cons append_Nil)
  have "takeWhile (\<lambda>c. c \<noteq> CHR ''/'') (fid @ CHR ''/'' # drop (length fid + 1) k) = fid"
    using assms by (subst takeWhile_append2) auto
  with k show "has_delimiter k \<and> item_of k = fid"
    unfolding has_delimiter_def item_of_def by (metis in_set_conv_decomp)
next
  assume a: "has_delimiter k \<and> item_of k = fid"
  let ?P = "\<lambda>c. c \<noteq> CHR ''/''"
  from a have "dropWhile ?P k \<noteq> []"
    by (auto simp: has_delimiter_def)
  then obtain c cs where d: "dropWhile ?P k = c # cs"
    by (cases "dropWhile ?P k") auto
  then have "c = CHR ''/''"
    using hd_dropWhile [of ?P k] by auto
  with d a have "k = fid @ CHR ''/'' # cs"
    using takeWhile_dropWhile_id [of ?P k] by (simp add: item_of_def)
  then show "starts_with (fid @ ''/'') k"
    by (simp add: starts_with_def)
qed

lemma map_of_filter_keys:
  "P key \<Longrightarrow> map_of (filter (\<lambda>kv. P (fst kv)) xs) key = map_of xs key"
  by (induction xs) auto

lemma distinct_lefts: "distinct es \<Longrightarrow> distinct (lefts es)"
proof (induction es)
  case Nil
  then show ?case by (simp add: lefts_def)
next
  case (Cons e es)
  have s: "\<And>p. p \<in> set (lefts es) \<Longrightarrow> Inl p \<in> set es"
    by (auto simp: lefts_def split: sum.splits)
  from Cons show ?case
    by (cases e) (auto simp: lefts_def dest: s [unfolded lefts_def])
qed

lemma set_lefts: "set (lefts es) = {p. Inl p \<in> set es}"
  by (auto simp: lefts_def split: sum.splits)

lemma contents_of_keys:
  "concat (map (case_sum (\<lambda>p::string. []) (\<lambda>k::string. [k]) \<circ> Inr) c) = c"
  by (induction c) simp_all

lemma collect_pages:
  assumes "\<forall>n. s3_fault E n = None"
  shows "for_pages E (map (\<lambda>c. make_page (map Inr c)) cs) collect_keys acc w =
           (Inr (acc @ concat cs), w\<lparr>requests := requests w + length cs\<rparr>)"
proof (induction cs arbitrary: acc w)
  case Nil
  then show ?case by simp
next
  case (Cons c cs)
  have p: "Contents (make_page (map Inr c)) = nonempty c"
    by (simp add: make_page_def contents_of_keys)
  have "collect_keys (make_page (map Inr c)) acc (w\<lparr>requests := requests w + 1\<rparr>) =
          (Inr (acc @ c), w\<lparr>requests := requests w + 1\<rparr>)"
    by (simp add: collect_keys_def p nonempty_def returns_def)
  then show ?case
    using assms Cons.IH [of "acc @ c" "w\<lparr>requests := requests w + 1\<rparr>"]
    by (simp add: s3_request_no_fault returns_def)
qed

lemma list_prefix_keys:
  assumes "\<forall>n. s3_fault E n = None"
  shows "bind_io (paginate_prefix p) (\<lambda>file_pages. for_pages E file_pages collect_keys []) w =
           (Inr (filter (starts_with p) (map fst (objects w))),
            w\<lparr>requests := requests w + length (chunks MAX_KEYS (filter (starts_with p) (map fst (objects w))))\<rparr>)"
  using collect_pages [OF assms, of "chunks MAX_KEYS (filter (starts_with p) (map fst (objects w)))" "[]" w]
  by (simp add: bind_io_def paginate_prefix_def chunks_map chunks_concat comp_def)

lemma delete_listed:
  "filter (\<lambda>kv. fst kv \<notin> set (filter Q (map fst objs))) objs = filter (\<lambda>kv. \<not> Q (fst kv)) objs"
  by (rule filter_cong) auto

lemma good_prefixD: "good_prefix p \<Longrightarrow> CHR ''/'' \<notin> set (rstrip_slash p) \<and> p = rstrip_slash p @ ''/''"
  by (auto simp: good_prefix_def rstrip_good)

lemma process_page_for_each:
  "process_page E (make_page es) = for_each (lefts es) (process_prefix E)"
proof -
  have "CommonPrefixes (make_page es) = nonempty (lefts es)"
    by (simp add: make_page_def lefts_def)
  then show ?thesis
    by (auto simp: process_page_def nonempty_def returns_def fun_eq_iff)
qed

lemma common_prefix_good: "good_prefix (common_prefix k)"
  unfolding good_prefix_def common_prefix_def
  by (rule exI [of _ "takeWhile (\<lambda>c. c \<noteq> CHR ''/'') k"]) (auto dest: set_takeWhileD)

lemma rstrip_common_prefix: "rstrip_slash (common_prefix k) = item_of k"
  unfolding common_prefix_def item_of_def
  by (rule rstrip_good) (auto dest: set_takeWhileD)

lemma starts_with_common_prefix:
  "starts_with (common_prefix k') k \<longleftrightarrow> has_delimiter k \<and> item_of k = item_of k'"
  unfolding common_prefix_def
  by (subst starts_with_good) (auto simp: item_of_def dest: set_takeWhileD)


lemma metadata_key_under:
  assumes "good_prefix p" "good_prefix q" "starts_with p (rstrip_slash q @ ''/metadata.json'')"
  shows "p = q"
proof -
  from assms(1) obtain f where f: "p = f @ ''/''" "CHR ''/'' \<notin> set f"
    by (auto simp: good_prefix_def)
  from assms(2) obtain g where g: "q = g @ ''/''" "CHR ''/'' \<notin> set g"
    by (auto simp: good_prefix_def)
  have "item_of (g @ ''/metadata.json'') = g"
    using g(2) unfolding item_of_def by (subst takeWhile_append2) auto
  with assms(3) starts_with_good [OF f(2), of "g @ ''/metadata.json''"] f g
  show ?thesis by (simp add: rstrip_good)
qed

lemma starts_with_unique:
  assumes "good_prefix p" "good_prefix q" "starts_with p k" "starts_with q k"
  shows "p = q"
proof -
  from assms(1) obtain f where f: "p = f @ ''/''" "CHR ''/'' \<notin> set f"
    by (auto simp: good_prefix_def)
  from assms(2) obtain g where g: "q = g @ ''/''" "CHR ''/'' \<notin> set g"
    by (auto simp: good_prefix_def)
  from assms(3,4) show ?thesis
    unfolding f(1) g(1) starts_with_good [OF f(2)] starts_with_good [OF g(2)] by simp
qed

subsection \<open>One prefix\<close>



lemma delete_objects_listed:
  assumes "\<forall>n. s3_fault E n = None" and "objects w = objs"
      and "length (filter Q (map fst objs)) \<le> MAX_DELETE_KEYS"
  shows "delete_objects E (filter Q (map fst objs)) w =
           (Inr (), w\<lparr>requests := requests w + 1,
                       objects := filter (\<lambda>kv. \<not> Q (fst kv)) objs\<rparr>)"
proof -
  have "delete_objects E keys w =
          (Inr (), w\<lparr>requests := requests w + 1,
                      objects := filter (\<lambda>kv. fst kv \<notin> set keys) (objects w)\<rparr>)"
    if "length keys \<le> MAX_DELETE_KEYS" for keys
    using assms(1) that by (simp add: delete_objects_def s3_request_no_fault)
  from this [OF assms(3)] show ?thesis
    by (simp only: assms(2) delete_listed)
qed

lemma delete_objects_refused:
  assumes "\<forall>n. s3_fault E n = None" and "length keys > MAX_DELETE_KEYS"
  shows "delete_objects E keys w = (Inl MalformedXML, w\<lparr>requests := requests w + 1\<rparr>)"
  using assms by (simp add: delete_objects_def s3_request_no_fault)

lemma dt_gt_Inr: "dt_gt t x = Inr b \<longleftrightarrow> (\<exists>d. x = Naive d \<and> b = dt_less d t)"
  by (cases x) auto

lemma process_prefix_effect:
  assumes nf: "\<forall>n. s3_fault E n = None" and fid: "CHR ''/'' \<notin> set fid"
  shows "\<exists>c w'. process_prefix E (fid @ ''/'') counts w = (Inr c, w')
           \<and> ticks w \<le> ticks w'
           \<and> objects w' = (if swept E (utcnow_at E (ticks w)) (objects w) fid
                            then filter (\<lambda>kv. \<not> starts_with (fid @ ''/'') (fst kv)) (objects w)
                            else objects w)"
proof -
  let ?w1 = "w\<lparr>requests := requests w + 1\<rparr>"
  let ?key = "fid @ ''/metadata.json''"
  let ?t = "utcnow_at E (ticks w)"
  have g: "get_object E ?key w =
             (case map_of (objects w) ?key of None \<Rightarrow> Inl NoSuchKey | Some b \<Rightarrow> Inr b, ?w1)"
    using nf by (simp add: get_object_def s3_request_no_fault split: option.splits)
  show ?thesis
  proof (cases "\<exists>d. expiration_of E (objects w) fid = Some (Naive d) \<and> dt_less d ?t")
    case False
    then have "\<not> swept E ?t (objects w) fid"
      by (simp add: swept_def)
    with False show ?thesis
      using g
      by (auto simp: process_prefix_def rstrip_good [OF fid] Let_def io_defs expiration_of_def
                     dt_gt_Inr
               split: option.splits sum.splits)
  next
    case True
    then obtain raw content metadata fld d where
      m: "map_of (objects w) ?key = Some raw" "decode_utf8 E raw = Inr content"
         "json_loads E content = Inr metadata" "subscript metadata ''expiration_time'' = Inr fld"
         "py_fromisoformat E fld = Inr (Naive d)" "dt_less d ?t"
      by (auto simp: expiration_of_def split: option.splits sum.splits)
    let ?w2 = "?w1\<lparr>ticks := ticks ?w1 + 1\<rparr>"
    let ?keys = "filter (starts_with (fid @ ''/'')) (map fst (objects w))"
    have l: "bind_io (paginate_prefix (fid @ ''/''))
               (\<lambda>file_pages. for_pages E file_pages collect_keys []) ?w2 =
             (Inr ?keys, ?w2\<lparr>requests := requests ?w2 + length (chunks MAX_KEYS ?keys)\<rparr>)"
      using list_prefix_keys [OF nf, of "fid @ ''/''" ?w2] by simp
    have sw: "swept E ?t (objects w) fid \<longleftrightarrow> length ?keys \<le> MAX_DELETE_KEYS"
      using True by (simp add: swept_def item_keys_def)
    have ne: "?keys = [] \<Longrightarrow>
                filter (\<lambda>kv. \<not> starts_with (fid @ ''/'') (fst kv)) (objects w) = objects w"
      by (auto simp: filter_empty_conv filter_id_conv)
    show ?thesis
    proof (cases "length ?keys \<le> MAX_DELETE_KEYS")
      case True
      then show ?thesis
        using g m l nf ne sw
        by (auto simp: process_prefix_def rstrip_good [OF fid] Let_def io_defs
                       delete_objects_listed
                 split: prod.splits sum.splits)
    next
      case False
      then have k2: "length ?keys > MAX_DELETE_KEYS"
        by simp
      then have k1: "?keys \<noteq> []"
        by (cases ?keys) (simp_all del: filter_map)
      note k = k1 k2
      show ?thesis
        using g m l nf sw False k(1) delete_objects_refused [OF nf k(2)]
        by (auto simp: process_prefix_def rstrip_good [OF fid] Let_def io_defs
                 split: prod.splits sum.splits)
    qed
  qed
qed

subsection \<open>A loop over prefixes\<close>

lemma removed_empty: "removed {} objs = objs"
  by (simp add: removed_def)

lemma removed_single: "removed {p} objs = filter (\<lambda>kv. \<not> starts_with p (fst kv)) objs"
  by (simp add: removed_def)

lemma removed_removed: "removed D2 (removed D1 objs) = removed (D1 \<union> D2) objs"
  unfolding removed_def by (simp, intro filter_cong refl) auto

lemma item_keys_removed:
  assumes "\<forall>p\<in>D. good_prefix p" "good_prefix q" "q \<notin> D"
  shows "filter (starts_with q) (map fst (removed D objs)) = filter (starts_with q) (map fst objs)"
proof (induction objs)
  case Nil
  show ?case by (simp add: removed_def)
next
  case (Cons kv objs)
  have "starts_with q (fst kv) \<Longrightarrow> \<not> (\<exists>p\<in>D. starts_with p (fst kv))"
    using assms starts_with_unique by blast
  with Cons show ?case
    by (auto simp: removed_def)
qed

lemma swept_removed:
  assumes "\<forall>p\<in>D. good_prefix p" "good_prefix q" "q \<notin> D"
  shows "swept E t (removed D objs) (rstrip_slash q) = swept E t objs (rstrip_slash q)"
proof -
  let ?P = "\<lambda>k. \<not> (\<exists>p\<in>D. starts_with p k)"
  have "?P (rstrip_slash q @ ''/metadata.json'')"
    using assms metadata_key_under by blast
  from map_of_filter_keys [of ?P, OF this]
  have m: "map_of (removed D objs) (rstrip_slash q @ ''/metadata.json'') =
           map_of objs (rstrip_slash q @ ''/metadata.json'')"
    by (simp add: removed_def)
  have q: "rstrip_slash q @ ''/'' = q"
    using good_prefixD [OF assms(2)] by simp
  have k: "item_keys (removed D objs) (rstrip_slash q) = item_keys objs (rstrip_slash q)"
    unfolding item_keys_def q by (rule item_keys_removed [OF assms])
  show ?thesis
    by (simp add: swept_def expiration_of_def m k)
qed

lemma sweeps_nil: "ticks w' = ticks w \<Longrightarrow> objects w' = objects w \<Longrightarrow> sweeps E [] w w'"
  by (simp add: sweeps_def removed_empty)

lemma sweeps_from:
  "ticks w0 = ticks w \<Longrightarrow> objects w0 = objects w \<Longrightarrow> sweeps E ps w0 w' \<Longrightarrow> sweeps E ps w w'"
  by (simp add: sweeps_def)

lemma sweeps_single:
  assumes nf: "\<forall>n. s3_fault E n = None" and g: "good_prefix p"
  shows "\<exists>c w'. process_prefix E p counts w = (Inr c, w') \<and> sweeps E [p] w w'"
proof -
  from good_prefixD [OF g] have f: "CHR ''/'' \<notin> set (rstrip_slash p)" and p: "p = rstrip_slash p @ ''/''"
    by auto
  let ?b = "swept E (utcnow_at E (ticks w)) (objects w) (rstrip_slash p)"
  from process_prefix_effect [OF nf f, of counts w] p
  obtain c w' where s: "process_prefix E p counts w = (Inr c, w')"
    and t: "ticks w \<le> ticks w'"
    and o: "objects w' = (if ?b then filter (\<lambda>kv. \<not> starts_with p (fst kv)) (objects w)
                          else objects w)"
    by auto
  have "sweeps E [p] w w'"
    unfolding sweeps_def
  proof (intro conjI exI [of _ "if ?b then {p} else {}"] ballI)
    show "ticks w \<le> ticks w'" by (rule t)
    show "(if ?b then {p} else {}) \<subseteq> set [p]" by simp
    show "objects w' = removed (if ?b then {p} else {}) (objects w)"
      using o by (simp add: removed_empty removed_single)
    fix q assume "q \<in> set [p]"
    then show "\<exists>n. ticks w \<le> n \<and> n \<le> ticks w' \<and>
                 (q \<in> (if ?b then {p} else {}) \<longleftrightarrow>
                  swept E (utcnow_at E n) (objects w) (rstrip_slash q))"
      using t by (intro exI [of _ "ticks w"]) simp
  qed
  with s show ?thesis by blast
qed

lemma sweeps_append:
  assumes g: "\<forall>p\<in>set (ps @ qs). good_prefix p" and d: "distinct (ps @ qs)"
      and a: "sweeps E ps w w1" and b: "sweeps E qs w1 w'"
  shows "sweeps E (ps @ qs) w w'"
proof -
  from a obtain D1 where t1: "ticks w \<le> ticks w1" and s1: "D1 \<subseteq> set ps"
    and o1: "objects w1 = removed D1 (objects w)"
    and c1: "\<forall>p\<in>set ps. \<exists>n. ticks w \<le> n \<and> n \<le> ticks w1 \<and>
               (p \<in> D1 \<longleftrightarrow> swept E (utcnow_at E n) (objects w) (rstrip_slash p))"
    unfolding sweeps_def by blast
  from b obtain D2 where t2: "ticks w1 \<le> ticks w'" and s2: "D2 \<subseteq> set qs"
    and o2: "objects w' = removed D2 (objects w1)"
    and c2: "\<forall>p\<in>set qs. \<exists>n. ticks w1 \<le> n \<and> n \<le> ticks w' \<and>
               (p \<in> D2 \<longleftrightarrow> swept E (utcnow_at E n) (objects w1) (rstrip_slash p))"
    unfolding sweeps_def by blast
  from d have dj: "set ps \<inter> set qs = {}" by simp
  have gD1: "\<forall>p\<in>D1. good_prefix p" using g s1 by auto
  show ?thesis
    unfolding sweeps_def
  proof (intro conjI exI [of _ "D1 \<union> D2"] ballI)
    show "ticks w \<le> ticks w'" using t1 t2 by simp
    show "D1 \<union> D2 \<subseteq> set (ps @ qs)" using s1 s2 by auto
    show "objects w' = removed (D1 \<union> D2) (objects w)"
      by (simp add: o2 o1 removed_removed)
    fix p assume p: "p \<in> set (ps @ qs)"
    show "\<exists>n. ticks w \<le> n \<and> n \<le> ticks w' \<and>
            (p \<in> D1 \<union> D2 \<longleftrightarrow> swept E (utcnow_at E n) (objects w) (rstrip_slash p))"
    proof (cases "p \<in> set ps")
      case True
      with dj s2 have "p \<notin> D2" by auto
      moreover from c1 True obtain n where "ticks w \<le> n" "n \<le> ticks w1"
        "p \<in> D1 \<longleftrightarrow> swept E (utcnow_at E n) (objects w) (rstrip_slash p)"
        by blast
      ultimately show ?thesis
        using t2 by (intro exI [of _ n]) simp
    next
      case False
      with p have q: "p \<in> set qs" by simp
      with dj s1 have n1: "p \<notin> D1" by auto
      from g q have gp: "good_prefix p" by simp
      from c2 q obtain n where n: "ticks w1 \<le> n" "n \<le> ticks w'"
        "p \<in> D2 \<longleftrightarrow> swept E (utcnow_at E n) (objects w1) (rstrip_slash p)"
        by blast
      have "swept E (utcnow_at E n) (objects w1) (rstrip_slash p) =
            swept E (utcnow_at E n) (objects w) (rstrip_slash p)"
        unfolding o1 by (rule swept_removed [OF gD1 gp n1])
      with n n1 t1 show ?thesis
        by (intro exI [of _ n]) simp
    qed
  qed
qed

lemma for_each_sweeps:
  assumes nf: "\<forall>n. s3_fault E n = None"
  shows "\<forall>p\<in>set ps. good_prefix p \<Longrightarrow> distinct ps \<Longrightarrow>
         \<exists>c w'. for_each ps (process_prefix E) counts w = (Inr c, w') \<and> sweeps E ps w w'"
proof (induction ps arbitrary: counts w)
  case Nil
  have "sweeps E [] w w"
    by (rule sweeps_nil) simp_all
  then show ?case by simp
next
  case (Cons p ps)
  from Cons.prems(1) have gp: "good_prefix p" and gps: "\<forall>q\<in>set ps. good_prefix q"
    by simp_all
  from Cons.prems(2) have dps: "distinct ps"
    by simp
  from sweeps_single [OF nf gp, of counts w]
  obtain c1 w1 where s1: "process_prefix E p counts w = (Inr c1, w1)" and a: "sweeps E [p] w w1"
    by blast
  from Cons.IH [OF gps dps, of c1 w1]
  obtain c w' where s2: "for_each ps (process_prefix E) c1 w1 = (Inr c, w')"
    and b: "sweeps E ps w1 w'"
    by blast
  have g: "\<forall>q\<in>set ([p] @ ps). good_prefix q"
    using Cons.prems(1) by simp
  have d: "distinct ([p] @ ps)"
    using Cons.prems(2) by simp
  have "sweeps E ([p] @ ps) w w'"
    by (rule sweeps_append [OF g d a b])
  then have "sweeps E (p # ps) w w'"
    by simp
  moreover have "for_each (p # ps) (process_prefix E) counts w = (Inr c, w')"
    using s1 s2 by simp
  ultimately show ?case by blast
qed

lemma for_pages_sweeps:
  assumes nf: "\<forall>n. s3_fault E n = None"
  shows "\<forall>p\<in>set (lefts (concat css)). good_prefix p \<Longrightarrow> distinct (lefts (concat css)) \<Longrightarrow>
         \<exists>c w'. for_pages E (map make_page css) (process_page E) counts w = (Inr c, w')
                \<and> sweeps E (lefts (concat css)) w w'"
proof (induction css arbitrary: counts w)
  case Nil
  have "sweeps E [] w w"
    by (rule sweeps_nil) simp_all
  then show ?case by (simp add: lefts_def)
next
  case (Cons es css)
  let ?w0 = "w\<lparr>requests := requests w + 1\<rparr>"
  have l: "lefts (concat (es # css)) = lefts es @ lefts (concat css)"
    by (simp add: lefts_def)
  have g: "\<forall>p\<in>set (lefts es @ lefts (concat css)). good_prefix p"
    using Cons.prems(1) unfolding l .
  have d: "distinct (lefts es @ lefts (concat css))"
    using Cons.prems(2) unfolding l .
  from g have g1: "\<forall>p\<in>set (lefts es). good_prefix p"
    and g2: "\<forall>p\<in>set (lefts (concat css)). good_prefix p"
    by simp_all
  from d have d1: "distinct (lefts es)" and d2: "distinct (lefts (concat css))"
    by simp_all
  from for_each_sweeps [OF nf g1 d1, of counts ?w0]
  obtain c1 w1 where s1: "for_each (lefts es) (process_prefix E) counts ?w0 = (Inr c1, w1)"
    and a0: "sweeps E (lefts es) ?w0 w1"
    by blast
  have a: "sweeps E (lefts es) w w1"
    by (rule sweeps_from [OF _ _ a0]) simp_all
  from Cons.IH [OF g2 d2, of c1 w1]
  obtain c w' where s2: "for_pages E (map make_page css) (process_page E) c1 w1 = (Inr c, w')"
    and b: "sweeps E (lefts (concat css)) w1 w'"
    by blast
  have sw: "sweeps E (lefts (concat (es # css))) w w'"
    unfolding l by (rule sweeps_append [OF g d a b])
  have f: "s3_request E (returns (make_page es)) w = (Inr (make_page es), ?w0)"
    using nf by (simp add: s3_request_no_fault returns_def)
  have "for_pages E (map make_page (es # css)) (process_page E) counts w = (Inr c, w')"
    using f s1 s2 by (simp add: process_page_for_each)
  with sw show ?case by blast
qed

subsection \<open>The whole sweep\<close>

lemma filter_mem_self: "filter (\<lambda>x. x \<in> set (filter P xs)) xs = filter P xs"
  by (rule filter_cong) auto

lemma item_of_no_slash: "CHR ''/'' \<notin> set (item_of k)"
  by (auto simp: item_of_def dest: set_takeWhileD)

lemma common_prefix_item: "common_prefix k = item_of k @ ''/''"
  by (simp add: common_prefix_def item_of_def)

lemma under_removed:
  assumes g: "\<forall>p\<in>D. good_prefix p" and k: "has_delimiter k" "item_of k = fid"
  shows "(\<exists>p\<in>D. starts_with p k) \<longleftrightarrow> fid @ ''/'' \<in> D"
proof
  assume "\<exists>p\<in>D. starts_with p k"
  then obtain p where p: "p \<in> D" "starts_with p k" by blast
  from g p(1) have gp: "good_prefix p" by simp
  have "good_prefix (fid @ ''/'')"
    using k(2) item_of_no_slash [of k] by (auto simp: good_prefix_def)
  moreover have "starts_with (fid @ ''/'') k"
    using k item_of_no_slash [of k] by (simp add: starts_with_good)
  ultimately have "p = fid @ ''/''"
    using gp p(2) starts_with_unique by blast
  with p(1) show "fid @ ''/'' \<in> D" by simp
next
  assume a: "fid @ ''/'' \<in> D"
  have "starts_with (fid @ ''/'') k"
    using k item_of_no_slash [of k] by (simp add: starts_with_good)
  with a show "\<exists>p\<in>D. starts_with p k" by blast
qed

lemma cleanup_no_fault:
  assumes nf: "\<forall>n. s3_fault E n = None"
  shows "\<exists>r w'. cleanup_lambda_handler E event w = (Inr r, w') \<and> statusCode r = 200
           \<and> objects w' = filter (\<lambda>kv. kv \<in> set (objects w')) (objects w)
           \<and> (\<forall>kv\<in>set (objects w). \<not> has_delimiter (fst kv) \<longrightarrow> kv \<in> set (objects w'))
           \<and> (\<forall>fid. \<exists>n. ticks w \<le> n \<and> n \<le> ticks w' \<and>
                 (\<forall>kv\<in>set (objects w). has_delimiter (fst kv) \<and> item_of (fst kv) = fid \<longrightarrow>
                    (kv \<notin> set (objects w') \<longleftrightarrow>
                       (\<exists>d. expiration_of E (objects w) fid = Some (Naive d)
                            \<and> dt_less d (utcnow_at E n))
                       \<and> length (item_keys (objects w) fid) \<le> MAX_DELETE_KEYS)))"
proof -
  let ?objs = "objects w"
  let ?entries = "remdups (map (\<lambda>kv. if has_delimiter (fst kv) then Inl (common_prefix (fst kv))
                                       else Inr (fst kv)) ?objs)"
  let ?css = "chunks MAX_KEYS ?entries"
  let ?ps = "lefts ?entries"
  have c: "concat ?css = ?entries"
    by (rule chunks_concat)
  have s: "set ?ps = {common_prefix k | k. k \<in> fst ` set ?objs \<and> has_delimiter k}"
    by (auto simp: set_lefts split: if_splits)
  have g: "\<forall>p\<in>set (lefts (concat ?css)). good_prefix p"
    unfolding c s using common_prefix_good by auto
  have d: "distinct (lefts (concat ?css))"
    unfolding c by (rule distinct_lefts) simp
  from for_pages_sweeps [OF nf g d, of "(0, 0)" w]
  obtain counts w' where
    f: "for_pages E (map make_page ?css) (process_page E) (0, 0) w = (Inr counts, w')"
    and sw: "sweeps E ?ps w w'"
    unfolding c by blast
  from sw obtain Del where t: "ticks w \<le> ticks w'" and sub: "Del \<subseteq> set ?ps"
    and o: "objects w' = removed Del ?objs"
    and dec: "\<forall>p\<in>set ?ps. \<exists>n. ticks w \<le> n \<and> n \<le> ticks w' \<and>
               (p \<in> Del \<longleftrightarrow> swept E (utcnow_at E n) ?objs (rstrip_slash p))"
    unfolding sweeps_def by blast
  have gD: "\<forall>p\<in>Del. good_prefix p"
    using g sub unfolding c by blast
  have h: "cleanup_lambda_handler E event w =
      (Inr \<lparr>statusCode = 200, headers = [],
            body = PDict [(''message'', PStr (cleanup_message counts))]\<rparr>, w')"
    using f by (simp add: cleanup_lambda_handler_def cleanup_try_def paginate_delimiter_def io_defs)
  have B: "objects w' = filter (\<lambda>kv. kv \<in> set (objects w')) ?objs"
    unfolding o removed_def by (rule filter_mem_self [symmetric])
  have mem: "\<And>kv. kv \<in> set ?objs \<Longrightarrow>
               (kv \<in> set (objects w') \<longleftrightarrow> \<not> (\<exists>p\<in>Del. starts_with p (fst kv)))"
    unfolding o removed_def by simp
  have C: "\<forall>kv\<in>set ?objs. \<not> has_delimiter (fst kv) \<longrightarrow> kv \<in> set (objects w')"
  proof (intro ballI impI)
    fix kv assume kv: "kv \<in> set ?objs" and nd: "\<not> has_delimiter (fst kv)"
    have "\<not> (\<exists>p\<in>Del. starts_with p (fst kv))"
    proof
      assume "\<exists>p\<in>Del. starts_with p (fst kv)"
      then obtain p where p: "p \<in> Del" "starts_with p (fst kv)" by blast
      from gD p(1) obtain fid where "p = fid @ ''/''" "CHR ''/'' \<notin> set fid"
        by (auto simp: good_prefix_def)
      with p(2) nd show False
        by (simp add: starts_with_good)
    qed
    with mem [OF kv] show "kv \<in> set (objects w')" by simp
  qed
  have D: "\<exists>n. ticks w \<le> n \<and> n \<le> ticks w' \<and>
                 (\<forall>kv\<in>set ?objs. has_delimiter (fst kv) \<and> item_of (fst kv) = fid \<longrightarrow>
                    (kv \<notin> set (objects w') \<longleftrightarrow>
                       (\<exists>d. expiration_of E ?objs fid = Some (Naive d)
                            \<and> dt_less d (utcnow_at E n))
                       \<and> length (item_keys ?objs fid) \<le> MAX_DELETE_KEYS))" for fid
  proof (cases "\<exists>kv\<in>set ?objs. has_delimiter (fst kv) \<and> item_of (fst kv) = fid")
    case False
    then show ?thesis
      using t by (intro exI [of _ "ticks w"]) auto
  next
    case True
    then obtain kv0 where k0: "kv0 \<in> set ?objs" "has_delimiter (fst kv0)" "item_of (fst kv0) = fid"
      by blast
    then have "common_prefix (fst kv0) \<in> set ?ps"
      unfolding s by auto
    then have pin: "fid @ ''/'' \<in> set ?ps"
      using k0(3) by (simp add: common_prefix_item)
    have fs: "CHR ''/'' \<notin> set fid"
      using k0(3) item_of_no_slash [of "fst kv0"] by simp
    from dec pin obtain n where n: "ticks w \<le> n" "n \<le> ticks w'"
      and dn: "fid @ ''/'' \<in> Del \<longleftrightarrow> swept E (utcnow_at E n) ?objs (rstrip_slash (fid @ ''/''))"
      by blast
    have dn': "fid @ ''/'' \<in> Del \<longleftrightarrow>
               (\<exists>d. expiration_of E ?objs fid = Some (Naive d) \<and> dt_less d (utcnow_at E n))
               \<and> length (item_keys ?objs fid) \<le> MAX_DELETE_KEYS"
      using dn by (simp add: rstrip_good [OF fs] swept_def)
    show ?thesis
    proof (intro exI [of _ n] conjI ballI impI)
      show "ticks w \<le> n" by (rule n(1))
      show "n \<le> ticks w'" by (rule n(2))
      fix kv assume kv: "kv \<in> set ?objs" and k: "has_delimiter (fst kv) \<and> item_of (fst kv) = fid"
      from k have u: "(\<exists>p\<in>Del. starts_with p (fst kv)) \<longleftrightarrow> fid @ ''/'' \<in> Del"
        by (intro under_removed [OF gD]) simp_all
      show "kv \<notin> set (objects w') \<longleftrightarrow>
              (\<exists>d. expiration_of E ?objs fid = Some (Naive d) \<and> dt_less d (utcnow_at E n))
              \<and> length (item_keys ?objs fid) \<le> MAX_DELETE_KEYS"
        using mem [OF kv] u dn' by simp
    qed
  qed
  from h B C D show ?thesis
    by (intro exI [of _ "\<lparr>statusCode = 200, headers = [],
            body = PDict [(''message'', PStr (cleanup_message counts))]\<rparr>"] exI [of _ w'])
       simp
qed

text \<open>
  Items the sweep never deletes, even long after their \<open>expiration_time\<close>: those whose
  timestamp carries a UTC offset, those whose metadata gives no timestamp, and those with
  more keys than one \<open>delete_objects\<close> request takes.
\<close>

lemma cleanup_keeps_unswept_items:
  assumes nf: "\<forall>n. s3_fault E n = None"
      and kv: "kv \<in> set (objects w)" "has_delimiter (fst kv)"
      and un: "(\<exists>d off. expiration_of E (objects w) (item_of (fst kv)) = Some (Aware d off))
               \<or> expiration_of E (objects w) (item_of (fst kv)) = None
               \<or> length (item_keys (objects w) (item_of (fst kv))) > MAX_DELETE_KEYS"
  shows "kv \<in> set (objects (snd (cleanup_lambda_handler E event w)))"
proof -
  from cleanup_no_fault [OF nf, of event w]
  obtain r w' where h: "cleanup_lambda_handler E event w = (Inr r, w')"
    and D: "\<forall>fid. \<exists>n. ticks w \<le> n \<and> n \<le> ticks w' \<and>
                 (\<forall>kv\<in>set (objects w). has_delimiter (fst kv) \<and> item_of (fst kv) = fid \<longrightarrow>
                    (kv \<notin> set (objects w') \<longleftrightarrow>
                       (\<exists>d. expiration_of E (objects w) fid = Some (Naive d)
                            \<and> dt_less d (utcnow_at E n))
                       \<and> length (item_keys (objects w) fid) \<le> MAX_DELETE_KEYS))"
    by blast
  from D obtain n where
    "\<forall>kv'\<in>set (objects w). has_delimiter (fst kv') \<and> item_of (fst kv') = item_of (fst kv) \<longrightarrow>
        (kv' \<notin> set (objects w') \<longleftrightarrow>
           (\<exists>d. expiration_of E (objects w) (item_of (fst kv)) = Some (Naive d)
                \<and> dt_less d (utcnow_at E n))
           \<and> length (item_keys (objects w) (item_of (fst kv))) \<le> MAX_DELETE_KEYS)"
    by blast
  with kv un have "kv \<in> set (objects w')"
    by auto
  with h show ?thesis by simp
qed




end
